theory Spec2Isabelle
  imports Main "HOL-Library.Word"
begin

unbundle bit_operations_syntax

section \<open>Constants of the missing header\<close>

text \<open>
  \<^verbatim>\<open>melody.cpp\<close> includes \<^verbatim>\<open>melody.h\<close>, which declares the waveform selectors
  \<^verbatim>\<open>SW_TRIANGLE\<close>, \<^verbatim>\<open>SW_SAWTOOTH\<close>, \<^verbatim>\<open>SW_NOISE\<close>, \<^verbatim>\<open>SW_SINE\<close>, \<^verbatim>\<open>SW_SQUARE_10\<close>,
  \<^verbatim>\<open>SW_SQUARE_50\<close> and the constant \<^verbatim>\<open>OUTPUT_BITS\<close>.  Their values are not part of
  the sources, so every function that reads one of them takes them as the parameter
  \<open>cfg\<close>.  \<^verbatim>\<open>MAX_SOUNDS\<close> is the length of the slot array \<open>playingSounds\<close>.  The
  expression \<^verbatim>\<open>(uint32_t)(toneStepMult * frequency)\<close> is single-precision floating
  point; it is the parameter \<open>toneStepOf\<close>, applied to the sample rate and the
  (clamped) frequency.
\<close>

record Config =
  SW_TRIANGLE :: int
  SW_SAWTOOTH :: int
  SW_NOISE :: int
  SW_SINE :: int
  SW_SQUARE_10 :: int
  SW_SQUARE_50 :: int
  OUTPUT_BITS :: nat
  toneStepOf :: "int \<Rightarrow> int \<Rightarrow> 32 word"

section \<open>Waveform generators\<close>

text \<open>
  \<^verbatim>\<open>noiseTone\<close> keeps the xorshift state in a function-static \<^verbatim>\<open>uint32_t x\<close>.  The
  model passes the state in and returns the new state with the sample.  The
  subtraction \<^verbatim>\<open>(x & 0xffff) - 0x7fff\<close> is unsigned and is converted to \<^verbatim>\<open>int\<close> on
  return.
\<close>

definition noiseSeed :: "32 word" where
  "noiseSeed = 0xf01ba80"

definition xorshift :: "32 word \<Rightarrow> 32 word" where
  "xorshift x0 =
     (let x1 = x0 XOR push_bit 13 x0;
          x2 = x1 XOR drop_bit 17 x1;
          x3 = x2 XOR push_bit 5 x2
      in x3)"

definition noiseTone :: "32 word \<Rightarrow> 32 word \<times> int" where
  "noiseTone x = (let x' = xorshift x in (x', sint ((x' AND 0xffff) - 0x7fff)))"

text \<open>
  \<^verbatim>\<open>sineTone\<close> computes in \<^verbatim>\<open>int32_t\<close>.  The model computes in \<open>int\<close>; \<^verbatim>\<open>>>\<close>
  on a signed value is the arithmetic shift, that is \<open>div\<close> by a power of two
  rounding down.  For every position in \<open>[0, 1023]\<close> all intermediate values fit
  32 bits (lemma \<open>sineTone_fits\<close>), so no signed overflow is left out.
\<close>

definition sine_c :: int where "sine_c = 2363"
definition sine_b :: int where "sine_b = - 21050"
definition sine_a :: int where "sine_a = 51454"

definition sineFold :: "int \<Rightarrow> int" where
  "sineFold position =
     (let p = position;
          p = (if p \<ge> 512 then p - 512 else p);
          p = (if p > 256 then 512 - p else p)
      in p)"

definition sinePoly :: "int \<Rightarrow> int" where
  "sinePoly p =
     (let p2 = p * p;
          u = (sine_c * p2) div 2 ^ 16 + sine_b;
          v = (u * p2) div 2 ^ 16 + sine_a;
          w = (v * p) div 2 ^ 8
      in w)"

definition sineTone :: "32 word \<Rightarrow> int" where
  "sineTone position =
     (let w = sinePoly (sineFold (sint position))
      in if position \<ge> 512 then - w else w)"

definition sawtoothTone :: "32 word \<Rightarrow> int" where
  "sawtoothTone position = sint (push_bit 6 position - 0x7fff)"

definition triangleTone :: "32 word \<Rightarrow> int" where
  "triangleTone position =
     (if position < 512 then sint (push_bit 7 position - 0x7fff)
      else sint (push_bit 7 (1023 - position) - 0x7fff))"

text \<open>
  \<^verbatim>\<open>squareWaveTone\<close> receives the selector as \<^verbatim>\<open>uintptr_t\<close>.  It is only reached
  through \<open>getWaveFn\<close>, whose guard gives \<open>SW_SQUARE_10 \<le> wave\<close>, so the unsigned
  \<^verbatim>\<open>wave - SW_SQUARE_10 + 1\<close> does not wrap and is written on \<open>int\<close>.
\<close>

definition squareWaveTone :: "Config \<Rightarrow> 8 word \<Rightarrow> 32 word \<Rightarrow> int" where
  "squareWaveTone cfg wave position =
     (if uint position < 102 * (uint wave - SW_SQUARE_10 cfg + 1) then - 0x7fff else 0x7fff)"

definition silenceTone :: "32 word \<Rightarrow> int" where
  "silenceTone position = 0"

datatype gentone =
  TriangleTone | SawtoothTone | NoiseTone | SineTone | SquareWaveTone | SilenceTone

definition getWaveFn :: "Config \<Rightarrow> 8 word \<Rightarrow> gentone" where
  "getWaveFn cfg wave =
     (if uint wave = SW_TRIANGLE cfg then TriangleTone
      else if uint wave = SW_SAWTOOTH cfg then SawtoothTone
      else if uint wave = SW_NOISE cfg then NoiseTone
      else if uint wave = SW_SINE cfg then SineTone
      else if SW_SQUARE_10 cfg \<le> uint wave \<and> uint wave \<le> SW_SQUARE_50 cfg then SquareWaveTone
      else SilenceTone)"

text \<open>The call \<^verbatim>\<open>fn(wave, position)\<close> through the function pointer.\<close>

fun callTone :: "Config \<Rightarrow> gentone \<Rightarrow> 8 word \<Rightarrow> 32 word \<Rightarrow> 32 word \<Rightarrow> 32 word \<times> int" where
  "callTone cfg TriangleTone wave position x = (x, triangleTone position)"
| "callTone cfg SawtoothTone wave position x = (x, sawtoothTone position)"
| "callTone cfg NoiseTone wave position x = noiseTone x"
| "callTone cfg SineTone wave position x = (x, sineTone position)"
| "callTone cfg SquareWaveTone wave position x = (x, squareWaveTone cfg wave position)"
| "callTone cfg SilenceTone wave position x = (x, silenceTone position)"

section \<open>Data model\<close>

datatype SoundState = Waiting | Playing | Done

text \<open>
  One ramp segment.  The field types are declared in the missing header; the values
  are kept as \<open>int\<close>, the selector as the \<^verbatim>\<open>uint8_t\<close> that \<^verbatim>\<open>fillSamples\<close> reads it
  into.
\<close>

record SoundInstruction =
  soundWave :: "8 word"
  frequency :: int
  duration :: int
  startVolume :: int
  endVolume :: int
  endFrequency :: int

type_synonym addr = nat

text \<open>
  A playing slot.  The pointers \<^verbatim>\<open>currInstr\<close> and \<^verbatim>\<open>instrEnd\<close> point into the
  instruction buffer of the bound sound; the model keeps the buffer contents they
  point into (\<open>instrData\<close>, read-only after the bind) and the two positions as
  indices.  \<open>sound\<close> is the address of the bound waiting-list node, \<open>None\<close> for
  \<^verbatim>\<open>NULL\<close>.
\<close>

record PlayingSound =
  sound :: "addr option"
  startSampleNo :: int
  instrData :: "SoundInstruction list"
  currInstr :: int
  instrEnd :: int
  tonePosition :: "32 word"
  samplesLeftInCurr :: "32 word"
  prevVolume :: int
  prevToneStep :: "32 word"
  prevToneDelta :: int

text \<open>
  A node of the waiting list.  The list itself is the sequence of nodes in link
  order, each with its address: the \<^verbatim>\<open>next\<close> pointer of a node is the address of
  the entry that follows it (\<^verbatim>\<open>NULL\<close> for the last).
\<close>

record WaitingSound =
  state :: SoundState
  instructions :: "SoundInstruction list"
  startSampleNo :: int

record WSynthesizer =
  currSample :: int
  sampleRate :: int
  playingSounds :: "PlayingSound list"
  waiting :: "(addr \<times> WaitingSound) list"
  noiseX :: "32 word"

section \<open>Scheduler\<close>

definition maxTime :: int where
  "maxTime = 0xffffff"

text \<open>
  The \<^verbatim>\<open>for (p = waiting; p; p = p->next)\<close> scan: the result is the node at which the
  loop broke (\<open>None\<close> when \<open>p\<close> ran to \<^verbatim>\<open>NULL\<close>) and \<open>minLeft\<close>.
\<close>

fun scanWaiting ::
  "int \<Rightarrow> (addr \<times> WaitingSound) list \<Rightarrow> int \<Rightarrow> (addr \<times> WaitingSound) option \<times> int" where
  "scanWaiting now [] minLeft = (None, minLeft)"
| "scanWaiting now (p # rest) minLeft =
     (let timeLeft = (if state (snd p) = Waiting then startSampleNo (snd p) - now else maxTime)
      in if timeLeft \<le> 0 then (Some p, minLeft)
         else scanWaiting now rest (if timeLeft < minLeft then timeLeft else minLeft))"

text \<open>
  The slot search \<^verbatim>\<open>for (i = 0; i < MAX_SOUNDS; ++i)\<close>: the result is the index of the
  slot \<open>snd\<close> points to at the \<^verbatim>\<open>break\<close> (\<open>None\<close> when the loop ended with
  \<^verbatim>\<open>snd = NULL\<close>) and \<open>minIdx\<close>.
\<close>

function slotLoop :: "PlayingSound list \<Rightarrow> nat \<Rightarrow> int \<Rightarrow> nat option \<times> int" where
  "slotLoop ps i minIdx =
     (if i < length ps then
        (if sound (ps ! i) = None then (Some i, minIdx)
         else slotLoop ps (i + 1)
                (if minIdx = - 1 \<or>
                    PlayingSound.startSampleNo (ps ! nat minIdx) < PlayingSound.startSampleNo (ps ! i)
                 then int i else minIdx))
      else (None, minIdx))"
  by pat_completeness auto
termination
  by (relation "measure (\<lambda>(ps, i, minIdx). length ps - i)") auto

declare slotLoop.simps [simp del]

definition setState :: "addr \<Rightarrow> SoundState \<Rightarrow> (addr \<times> WaitingSound) list \<Rightarrow> (addr \<times> WaitingSound) list" where
  "setState a st ws = map (\<lambda>(b, w). if b = a then (b, w\<lparr>state := st\<rparr>) else (b, w)) ws"

text \<open>
  The slot \<open>snd\<close> points to after \<^verbatim>\<open>if (!snd) snd = &playingSounds[minIdx]\<close>.
\<close>

definition chooseSlot :: "PlayingSound list \<Rightarrow> nat" where
  "chooseSlot ps =
     (let r = slotLoop ps 0 (- 1)
      in case fst r of Some i \<Rightarrow> i | None \<Rightarrow> nat (snd r))"

text \<open>
  The \<^verbatim>\<open>if (p) { ... }\<close> branch of \<^verbatim>\<open>updateQueues\<close>: pick the slot, force the sound
  it holds to Done, bind \<open>p\<close>.  With \<^verbatim>\<open>MAX_SOUNDS = 0\<close> the source indexes the array
  at \<open>-1\<close>; the slot array is taken to be non-empty.
\<close>

definition evictOld :: "PlayingSound \<Rightarrow> (addr \<times> WaitingSound) list \<Rightarrow> (addr \<times> WaitingSound) list" where
  "evictOld slot ws = (case sound slot of Some old \<Rightarrow> setState old Done ws | None \<Rightarrow> ws)"

definition bindSound :: "WSynthesizer \<Rightarrow> addr \<times> WaitingSound \<Rightarrow> WSynthesizer" where
  "bindSound s p =
     (let ps = playingSounds s;
          idx = chooseSlot ps;
          slot = ps ! idx;
          w1 = evictOld slot (waiting s);
          w2 = setState (fst p) Playing w1;
          slot' = slot\<lparr>sound := Some (fst p),
                       PlayingSound.startSampleNo := currSample s,
                       instrData := instructions (snd p),
                       currInstr := 0,
                       instrEnd := int (length (instructions (snd p))),
                       prevVolume := - 1\<rparr>
      in s\<lparr>playingSounds := ps[idx := slot'], waiting := w2\<rparr>)"

definition countWaiting :: "(addr \<times> WaitingSound) list \<Rightarrow> nat" where
  "countWaiting ws = length (filter (\<lambda>p. state (snd p) = Waiting) ws)"

lemma setState_Nil [simp]: "setState a st [] = []"
  by (simp add: setState_def)

lemma setState_Cons [simp]:
  "setState a st ((b, w) # ws) = (if b = a then (b, w\<lparr>state := st\<rparr>) else (b, w)) # setState a st ws"
  by (simp add: setState_def)

lemma countWaiting_Nil [simp]: "countWaiting [] = 0"
  by (simp add: countWaiting_def)

lemma countWaiting_Cons [simp]:
  "countWaiting (p # ws) = (if state (snd p) = Waiting then 1 else 0) + countWaiting ws"
  by (simp add: countWaiting_def)

lemma scanWaiting_Some:
  "scanWaiting now ws m = (Some p, m') \<Longrightarrow> p \<in> set ws \<and> state (snd p) = Waiting \<and> startSampleNo (snd p) \<le> now"
proof (induction ws arbitrary: m)
  case Nil
  then show ?case by simp
next
  case (Cons q rest)
  show ?case
  proof (cases "(if state (snd q) = Waiting then startSampleNo (snd q) - now else maxTime) \<le> 0")
    case True
    then have "state (snd q) = Waiting" "startSampleNo (snd q) \<le> now"
      by (auto simp: maxTime_def split: if_splits)
    moreover from True Cons.prems have "p = q" by (simp add: Let_def)
    ultimately show ?thesis by simp
  next
    case False
    with Cons.prems Cons.IH show ?thesis by (auto simp: Let_def)
  qed
qed

lemma countWaiting_setState_le:
  "st \<noteq> Waiting \<Longrightarrow> countWaiting (setState a st ws) \<le> countWaiting ws"
proof (induction ws)
  case Nil
  then show ?case by simp
next
  case (Cons q rest)
  then show ?case by (cases q) simp
qed

lemma countWaiting_setState_less:
  "st \<noteq> Waiting \<Longrightarrow> (a, w) \<in> set ws \<Longrightarrow> state w = Waiting \<Longrightarrow>
   countWaiting (setState a st ws) < countWaiting ws"
proof (induction ws)
  case Nil
  then show ?case by simp
next
  case (Cons q rest)
  have le: "countWaiting (setState a st rest) \<le> countWaiting rest"
    using Cons.prems(1) by (rule countWaiting_setState_le)
  show ?case
  proof (cases "q = (a, w)")
    case True
    with Cons.prems(1,3) le show ?thesis by simp
  next
    case False
    with Cons.prems have "(a, w) \<in> set rest" by simp
    from Cons.IH [OF Cons.prems(1) this Cons.prems(3)] Cons.prems(1) show ?thesis
      by (cases q) simp
  qed
qed

lemma setState_mem:
  "(a, w) \<in> set ws \<Longrightarrow> b \<noteq> a \<Longrightarrow> (a, w) \<in> set (setState b st ws)"
  by (induction ws) auto

lemma waiting_bindSound:
  "waiting (bindSound s p) =
     setState (fst p) Playing (evictOld (playingSounds s ! chooseSlot (playingSounds s)) (waiting s))"
  by (simp add: bindSound_def Let_def)

lemma countWaiting_evictOld: "countWaiting (evictOld slot ws) \<le> countWaiting ws"
  by (simp add: evictOld_def countWaiting_setState_le split: option.splits)

lemma countWaiting_bindSound:
  assumes "(a, w) \<in> set (waiting s)" and "state w = Waiting"
  shows "countWaiting (waiting (bindSound s (a, w))) < countWaiting (waiting s)"
proof -
  define slot where "slot = playingSounds s ! chooseSlot (playingSounds s)"
  define w1 where "w1 = evictOld slot (waiting s)"
  have w: "waiting (bindSound s (a, w)) = setState a Playing w1"
    by (simp add: waiting_bindSound w1_def slot_def)
  have le: "countWaiting w1 \<le> countWaiting (waiting s)"
    by (simp add: w1_def countWaiting_evictOld)
  have le2: "countWaiting (setState a Playing w1) \<le> countWaiting w1"
    by (simp add: countWaiting_setState_le)
  show ?thesis
  proof (cases "(a, w) \<in> set w1")
    case True
    then have "countWaiting (setState a Playing w1) < countWaiting w1"
      using assms(2) by (intro countWaiting_setState_less) auto
    with le w show ?thesis by simp
  next
    case False
    with assms(1) obtain old where old: "w1 = setState old Done (waiting s)"
      by (auto simp: w1_def evictOld_def split: option.splits)
    have "old = a"
    proof (rule ccontr)
      assume "old \<noteq> a"
      then have "(a, w) \<in> set w1" using assms(1) old by (simp add: setState_mem)
      with False show False by blast
    qed
    then have "countWaiting w1 < countWaiting (waiting s)"
      using old assms by (simp add: countWaiting_setState_less)
    with le2 w show ?thesis by simp
  qed
qed

text \<open>
  \<^verbatim>\<open>updateQueues\<close>: the \<^verbatim>\<open>while (1)\<close> loop.  Every round that does not return turns
  a Waiting node into a Playing one, so the number of Waiting nodes is the measure.
\<close>

function updateQueues :: "WSynthesizer \<Rightarrow> int \<times> WSynthesizer" where
  "updateQueues s =
     (case scanWaiting (currSample s) (waiting s) maxTime of
        (Some p, minLeft) \<Rightarrow> updateQueues (bindSound s p)
      | (None, minLeft) \<Rightarrow> (minLeft, s))"
  by pat_completeness auto
termination
proof (relation "measure (\<lambda>s. countWaiting (waiting s))")
  show "wf (measure (\<lambda>s. countWaiting (waiting s)))" by simp
next
  fix s :: WSynthesizer and x y p
  assume "(x, y) = scanWaiting (currSample s) (waiting s) maxTime" "x = Some p"
  then have "scanWaiting (currSample s) (waiting s) maxTime = (Some p, y)" by simp
  from scanWaiting_Some [OF this]
  have "(fst p, snd p) \<in> set (waiting s)" "state (snd p) = Waiting" by simp_all
  from countWaiting_bindSound [OF this]
  show "(bindSound s p, s) \<in> measure (\<lambda>s. countWaiting (waiting s))" by simp
qed

declare updateQueues.simps [simp del]

lemma scanWaiting_pos:
  "scanWaiting now ws m = (r, m') \<Longrightarrow> 0 < m \<Longrightarrow> 0 < m'"
proof (induction ws arbitrary: m)
  case Nil
  then show ?case by simp
next
  case (Cons q rest)
  then show ?case
    by (auto simp: Let_def split: if_splits)
qed

lemma updateQueues_pos: "0 < fst (updateQueues s)"
proof (induction s rule: updateQueues.induct)
  case (1 s)
  obtain r m where sc: "scanWaiting (currSample s) (waiting s) maxTime = (r, m)"
    by (cases "scanWaiting (currSample s) (waiting s) maxTime")
  show ?case
  proof (cases r)
    case None
    from scanWaiting_pos [OF sc] have "0 < m" by (simp add: maxTime_def)
    with sc None show ?thesis by (simp add: updateQueues.simps [of s])
  next
    case (Some p)
    with sc "1.IH" [OF sc [symmetric] Some] show ?thesis
      by (simp add: updateQueues.simps [of s])
  qed
qed

section \<open>Mixer\<close>

definition CLAMP :: "int \<Rightarrow> int \<Rightarrow> int \<Rightarrow> int" where
  "CLAMP lo v hi = (if v < lo then lo else if v > hi then hi else v)"

text \<open>
  Division of \<^verbatim>\<open>int\<close> values in C truncates towards zero.  It is undefined for a
  zero divisor and for \<^verbatim>\<open>INT_MIN / -1\<close>: \<open>cdiv\<close> is \<open>None\<close> there.
\<close>

definition tdiv :: "int \<Rightarrow> int \<Rightarrow> int" where
  "tdiv a b = sgn a * sgn b * (\<bar>a\<bar> div \<bar>b\<bar>)"

definition cdiv :: "int \<Rightarrow> int \<Rightarrow> int option" where
  "cdiv a b = (if b = 0 \<or> (a = - (2 ^ 31) \<and> b = - 1) then None else Some (tdiv a b))"

definition samplesPerMS :: "int \<Rightarrow> 32 word" where
  "samplesPerMS rate = word_of_int (tdiv (rate * 2 ^ 8) 1000)"

text \<open>The local variables of the per-slot body of \<^verbatim>\<open>fillSamples\<close>.\<close>

record Locals =
  fn :: "gentone option"
  toneStep :: "32 word"
  toneDelta :: int
  volumeStep :: int
  tonePosition :: "32 word"
  samplesLeft :: "32 word"
  wave :: "8 word"
  volume :: int
  prevFreq :: int
  prevEndFreq :: int

text \<open>
  What the sample loop of one slot reads and writes: the slot itself (\<^verbatim>\<open>*snd\<close>, of
  which it moves \<open>currInstr\<close>), the locals, the static state of the noise generator,
  and the values \<open>v\<close> it has added to \<^verbatim>\<open>dst[0]\<close>, \<^verbatim>\<open>dst[1]\<close>, ... so far
  (\<open>terms\<close>; the loop index \<open>j\<close> is their number).
\<close>

record LoopState =
  slot :: PlayingSound
  locals :: Locals
  noise :: "32 word"
  terms :: "int list"

datatype 'a ctl = Break 'a | Next 'a

definition clampInstr :: "SoundInstruction \<Rightarrow> SoundInstruction" where
  "clampInstr copy =
     copy\<lparr>frequency := CLAMP 20 (frequency copy) 20000,
          endFrequency := CLAMP 20 (endFrequency copy) 20000,
          startVolume := CLAMP 0 (startVolume copy) 1023,
          endVolume := CLAMP 0 (endVolume copy) 1023,
          duration := CLAMP 1 (duration copy) 60000\<rparr>"

text \<open>
  The part of the \<^verbatim>\<open>if (samplesLeft == 0)\<close> block after the end-of-sound test: read
  the instruction \<open>currInstr\<close> points to, clamp it, and either restore the saved
  state (\<open>first\<close> is \<^verbatim>\<open>j == 0\<close>) or start the instruction afresh.  \<open>None\<close> where the
  source reads outside the buffer or divides by zero.
\<close>

definition loadInstr :: "Config \<Rightarrow> int \<Rightarrow> bool \<Rightarrow> PlayingSound \<Rightarrow> Locals \<Rightarrow> Locals option" where
  "loadInstr cfg rate first sd l =
     (if currInstr sd < 0 \<or> int (length (instrData sd)) \<le> currInstr sd then None
      else
        let instr = clampInstr (instrData sd ! nat (currInstr sd));
            n = drop_bit 8 (word_of_int (duration instr) * samplesPerMS rate)
        in case cdiv ((endVolume instr - startVolume instr) * 2 ^ 16) (sint n) of
             None \<Rightarrow> None
           | Some vstep \<Rightarrow>
               let l0 = l\<lparr>wave := soundWave instr,
                          fn := Some (getWaveFn cfg (soundWave instr)),
                          volumeStep := vstep\<rparr>
               in if first \<and> prevVolume sd \<noteq> - 1 then
                    Some (l0\<lparr>samplesLeft := samplesLeftInCurr sd,
                             volume := prevVolume sd,
                             toneStep := prevToneStep sd,
                             toneDelta := prevToneDelta sd,
                             prevFreq := frequency instr,
                             prevEndFreq := endFrequency instr\<rparr>)
                  else
                    let l1 = l0\<lparr>samplesLeft := n, volume := startVolume instr * 2 ^ 16\<rparr>
                    in if prevFreq l \<noteq> frequency instr \<or> prevEndFreq l \<noteq> endFrequency instr then
                         let ts = toneStepOf cfg rate (frequency instr)
                         in if frequency instr \<noteq> endFrequency instr then
                              (case cdiv (sint (toneStepOf cfg rate (endFrequency instr) - ts)) (sint n) of
                                 None \<Rightarrow> None
                               | Some td \<Rightarrow>
                                   Some (l1\<lparr>toneStep := ts, toneDelta := td,
                                            prevFreq := frequency instr,
                                            prevEndFreq := endFrequency instr\<rparr>))
                            else
                              Some (l1\<lparr>toneStep := ts, toneDelta := 0,
                                       prevFreq := frequency instr,
                                       prevEndFreq := endFrequency instr\<rparr>)
                       else Some l1)"

text \<open>
  The rest of the loop body: one sample from the generator, scaled by the volume,
  added to \<^verbatim>\<open>dst[j]\<close>, and the four updates.  \<^verbatim>\<open>OUTPUT_BITS\<close> is at most 16 (\<^verbatim>\<open>dst\<close>
  is \<^verbatim>\<open>int16_t\<close>), so the shift count is \<open>10 + (16 - OUTPUT_BITS)\<close> on \<open>nat\<close>.
\<close>

definition emitSample :: "Config \<Rightarrow> LoopState \<Rightarrow> LoopState ctl option" where
  "emitSample cfg st =
     (let l = locals st
      in case fn l of
           None \<Rightarrow> None
         | Some f \<Rightarrow>
             let r = callTone cfg f (wave l) (drop_bit 16 (tonePosition l) AND 1023) (noise st);
                 v = (snd r * (volume l div 2 ^ 16)) div 2 ^ (10 + (16 - OUTPUT_BITS cfg))
             in Some (Next (st\<lparr>locals := l\<lparr>tonePosition := tonePosition l + toneStep l,
                                              toneStep := toneStep l + word_of_int (toneDelta l),
                                              volume := volume l + volumeStep l,
                                              samplesLeft := samplesLeft l - 1\<rparr>,
                                 noise := fst r,
                                 terms := terms st @ [v]\<rparr>)))"

definition sampleStep :: "Config \<Rightarrow> int \<Rightarrow> bool \<Rightarrow> LoopState \<Rightarrow> LoopState ctl option" where
  "sampleStep cfg rate first st =
     (if samplesLeft (locals st) = 0 then
        let sd = (slot st)\<lparr>currInstr := currInstr (slot st) + 1\<rparr>
        in if currInstr sd \<ge> instrEnd sd then Some (Break (st\<lparr>slot := sd\<rparr>))
           else case loadInstr cfg rate first sd (locals st) of
                  None \<Rightarrow> None
                | Some l \<Rightarrow> emitSample cfg (st\<lparr>slot := sd, locals := l\<rparr>)
      else emitSample cfg st)"

text \<open>
  \<^verbatim>\<open>for (int j = 0; j < numsamples; ++j)\<close>: \<open>k\<close> is the number of iterations still to
  run, \<open>first\<close> is \<^verbatim>\<open>j == 0\<close>.
\<close>

fun sampleLoop :: "Config \<Rightarrow> int \<Rightarrow> nat \<Rightarrow> bool \<Rightarrow> LoopState \<Rightarrow> LoopState option" where
  "sampleLoop cfg rate 0 first st = Some st"
| "sampleLoop cfg rate (Suc k) first st =
     (case sampleStep cfg rate first st of
        None \<Rightarrow> None
      | Some (Break st') \<Rightarrow> Some st'
      | Some (Next st') \<Rightarrow> sampleLoop cfg rate k False st')"

definition initLocals :: "PlayingSound \<Rightarrow> Locals" where
  "initLocals sd =
     \<lparr>fn = None, toneStep = 0, toneDelta = 0, volumeStep = 0,
      tonePosition = PlayingSound.tonePosition sd,
      samplesLeft = 0, wave = 0, volume = 0, prevFreq = 0, prevEndFreq = 0\<rparr>"

text \<open>
  What the slot loop of \<^verbatim>\<open>fillSamples\<close> threads through the slots: the waiting list
  (for the \<open>state\<close> fields), the noise generator, the destination buffer and \<open>res\<close>.
\<close>

record MixState =
  mwaiting :: "(addr \<times> WaitingSound) list"
  mnoise :: "32 word"
  dst :: "16 word list"
  res :: int

text \<open>\<^verbatim>\<open>dst[j] += v\<close> for the \<open>j\<close>-th term, in \<^verbatim>\<open>int16_t\<close>.\<close>

fun addTerms :: "16 word list \<Rightarrow> int list \<Rightarrow> 16 word list" where
  "addTerms [] vs = []"
| "addTerms (d # ds) [] = d # ds"
| "addTerms (d # ds) (v # vs) = (d + word_of_int v) # addTerms ds vs"

text \<open>The body of \<^verbatim>\<open>for (i = 0; i < MAX_SOUNDS; ++i)\<close> for the slot \<open>sd\<close>.\<close>

definition playSlot ::
  "Config \<Rightarrow> int \<Rightarrow> nat \<Rightarrow> PlayingSound \<Rightarrow> MixState \<Rightarrow> (PlayingSound \<times> MixState) option" where
  "playSlot cfg rate n sd m =
     (case sound sd of
        None \<Rightarrow> Some (sd, m)
      | Some a \<Rightarrow>
          (case sampleLoop cfg rate n True
                  \<lparr>slot = sd\<lparr>currInstr := currInstr sd - 1\<rparr>, locals = initLocals sd,
                   noise = mnoise m, terms = []\<rparr> of
             None \<Rightarrow> None
           | Some st \<Rightarrow>
               let sd1 = slot st;
                   l = locals st;
                   m1 = m\<lparr>mnoise := noise st, dst := addTerms (dst m) (terms st), res := 1\<rparr>
               in if currInstr sd1 \<ge> instrEnd sd1 then
                    Some (sd1\<lparr>sound := None\<rparr>, m1\<lparr>mwaiting := setState a Done (mwaiting m)\<rparr>)
                  else
                    Some (sd1\<lparr>PlayingSound.tonePosition := tonePosition l,
                               samplesLeftInCurr :=
                                 (if samplesLeft l = 0 then samplesLeft l + 1 else samplesLeft l),
                               prevVolume := volume l,
                               prevToneDelta := toneDelta l,
                               prevToneStep := toneStep l\<rparr>, m1)))"

fun mixSlots ::
  "Config \<Rightarrow> int \<Rightarrow> nat \<Rightarrow> PlayingSound list \<Rightarrow> MixState \<Rightarrow> (PlayingSound list \<times> MixState) option" where
  "mixSlots cfg rate n [] m = Some ([], m)"
| "mixSlots cfg rate n (sd # rest) m =
     (case playSlot cfg rate n sd m of
        None \<Rightarrow> None
      | Some (sd', m') \<Rightarrow>
          (case mixSlots cfg rate n rest m' of
             None \<Rightarrow> None
           | Some (rest', m'') \<Rightarrow> Some (sd' # rest', m'')))"

definition MAXVAL :: "Config \<Rightarrow> int" where
  "MAXVAL cfg = 2 ^ (OUTPUT_BITS cfg - 1) - 1"

definition clampOut :: "Config \<Rightarrow> 16 word \<Rightarrow> 16 word" where
  "clampOut cfg d =
     (if sint d > MAXVAL cfg then word_of_int (MAXVAL cfg)
      else if sint d < - MAXVAL cfg then word_of_int (- MAXVAL cfg)
      else d)"

text \<open>
  \<^verbatim>\<open>fillSamples\<close> from \<^verbatim>\<open>memset\<close> on: the buffer of \<open>n\<close> samples is zeroed, every slot
  adds its terms, the sample counter advances, the buffer is clamped.  \<open>res0\<close> is the
  value \<^verbatim>\<open>waiting != NULL\<close> that \<open>res\<close> was initialised with.
\<close>

definition mixDown :: "Config \<Rightarrow> nat \<Rightarrow> WSynthesizer \<Rightarrow> (int \<times> 16 word list \<times> WSynthesizer) option" where
  "mixDown cfg n s =
     (case mixSlots cfg (sampleRate s) n (playingSounds s)
             \<lparr>mwaiting = waiting s, mnoise = noiseX s, dst = replicate n 0,
              res = (if waiting s \<noteq> [] then 1 else 0)\<rparr> of
        None \<Rightarrow> None
      | Some (ps, m) \<Rightarrow>
          Some (res m, map (clampOut cfg) (dst m),
                s\<lparr>playingSounds := ps, waiting := mwaiting m, noiseX := mnoise m,
                  currSample := currSample s + int n\<rparr>))"

text \<open>
  \<^verbatim>\<open>fillSamples\<close>.  The result is the return value, the samples written to
  \<^verbatim>\<open>dst[0 .. numsamples)\<close> and the new state; \<open>None\<close> where the source's behaviour is
  undefined.  The recursion is on \<open>numsamples\<close>: \<open>updateQueues\<close> returns a positive
  \<open>timeLeft\<close>.
\<close>

function fillSamples :: "Config \<Rightarrow> int \<Rightarrow> WSynthesizer \<Rightarrow> (int \<times> 16 word list \<times> WSynthesizer) option" where
  "fillSamples cfg numsamples s =
     (if numsamples \<le> 0 then Some (1, [], s)
      else
        let r = updateQueues s; timeLeft = fst r; s1 = snd r
        in if timeLeft < numsamples then
             (case fillSamples cfg timeLeft s1 of
                None \<Rightarrow> None
              | Some (r1, d1, s2) \<Rightarrow>
                  (case fillSamples cfg (numsamples - timeLeft) s2 of
                     None \<Rightarrow> None
                   | Some (r2, d2, s3) \<Rightarrow> Some (1, d1 @ d2, s3)))
           else mixDown cfg (nat numsamples) s1)"
  by pat_completeness auto
termination
proof (relation "measure (\<lambda>(cfg, n, s). nat n)")
  show "wf (measure (\<lambda>(cfg :: Config, n :: int, s :: WSynthesizer). nat n))" by simp
next
  fix cfg :: Config and numsamples :: int and s x xa xb
  assume "\<not> numsamples \<le> 0" "xa < numsamples"
  then show "((cfg, xa, xb), cfg, numsamples, s) \<in> measure (\<lambda>(cfg, n, s). nat n)"
    by simp
next
  fix cfg :: Config and numsamples :: int and s :: WSynthesizer and x xa xb ya
  assume "\<not> numsamples \<le> 0" "x = updateQueues s" "xa = fst x"
  moreover have "0 < fst (updateQueues s)" by (rule updateQueues_pos)
  ultimately show "((cfg, numsamples - xa, ya), cfg, numsamples, s) \<in> measure (\<lambda>(cfg, n, s). nat n)"
    by simp
qed

declare fillSamples.simps [simp del]

section \<open>Queue management\<close>

text \<open>
  The inner loop of \<^verbatim>\<open>queuePlayInstructions\<close>,
  \<^verbatim>\<open>while (p->next && p->next->state == Done)\<close>, on the successors of \<open>p\<close>: the result
  is the successors that remain linked and the nodes that were unlinked, in the
  order of the \<^verbatim>\<open>unregisterGCObj\<close> calls.
\<close>

fun dropDone ::
  "(addr \<times> WaitingSound) list \<Rightarrow> (addr \<times> WaitingSound) list \<times> (addr \<times> WaitingSound) list" where
  "dropDone [] = ([], [])"
| "dropDone (todel # rest) =
     (if state (snd todel) = Done then (let r = dropDone rest in (fst r, todel # snd r))
      else (todel # rest, []))"

lemma length_dropDone: "length (fst (dropDone ws)) \<le> length ws"
  by (induction ws) (simp_all add: Let_def)

text \<open>
  The outer loop \<^verbatim>\<open>while (p)\<close>, on the successors of \<open>p\<close>: run the inner loop, then
  move \<open>p\<close> to its successor.
\<close>

function sweep ::
  "(addr \<times> WaitingSound) list \<Rightarrow> (addr \<times> WaitingSound) list \<times> (addr \<times> WaitingSound) list" where
  "sweep succs =
     (let r = dropDone succs
      in case fst r of
           [] \<Rightarrow> ([], snd r)
         | p # rest \<Rightarrow> (let r2 = sweep rest in (p # fst r2, snd r @ snd r2)))"
  by pat_completeness auto
termination
proof (relation "measure length")
  show "wf (measure (length :: (addr \<times> WaitingSound) list \<Rightarrow> nat))" by simp
next
  fix succs :: "(addr \<times> WaitingSound) list" and x p rest
  assume "x = dropDone succs" "fst x = p # rest"
  with length_dropDone [of succs] show "(rest, succs) \<in> measure length" by simp
qed

declare sweep.simps [simp del]

text \<open>
  The calls to the buffer lifetime tracker, in order.  An unregister call is made for
  the buffer of one unlinked node.
\<close>

datatype gcCall =
  RegisterGCObj "SoundInstruction list"
| UnregisterGCObj "SoundInstruction list"

text \<open>
  \<^verbatim>\<open>queuePlayInstructions(when, buf)\<close>; \<open>a\<close> is the address of the node that \<^verbatim>\<open>new\<close>
  returns.  The result is the new state and the tracker calls made.
\<close>

definition queuePlayInstructions ::
  "addr \<Rightarrow> int \<Rightarrow> SoundInstruction list \<Rightarrow> WSynthesizer \<Rightarrow> WSynthesizer \<times> gcCall list" where
  "queuePlayInstructions a delay buf s =
     (let p = (a, \<lparr>state = Waiting, instructions = buf,
                    startSampleNo = currSample s + tdiv (delay * sampleRate s) 1000\<rparr>);
          r = sweep (waiting s)
      in (s\<lparr>waiting := p # fst r\<rparr>,
          RegisterGCObj buf # map (\<lambda>todel. UnregisterGCObj (instructions (snd todel))) (snd r)))"

section \<open>Notions used in the statements, and example states\<close>


definition timesOf :: "int \<Rightarrow> (addr \<times> WaitingSound) list \<Rightarrow> int list" where
  "timesOf now ws = map (\<lambda>p. startSampleNo (snd p) - now) (filter (\<lambda>p. state (snd p) = Waiting) ws)"

text \<open>
  A slot as the constructor leaves it (\<^verbatim>\<open>memset(&playingSounds, 0, ...)\<close>).
\<close>

definition emptySlot :: PlayingSound where
  "emptySlot =
     \<lparr>sound = None, startSampleNo = 0, instrData = [], currInstr = 0, instrEnd = 0,
      tonePosition = 0, samplesLeftInCurr = 0, prevVolume = 0, prevToneStep = 0,
      prevToneDelta = 0\<rparr>"

text \<open>
  Values for the constants of the missing header, used in the examples only; the
  tone step is the exact quotient \<open>frequency * 1024 * 65536 / sampleRate\<close>.
\<close>

definition exampleConfig :: Config where
  "exampleConfig =
     \<lparr>SW_TRIANGLE = 1, SW_SAWTOOTH = 2, SW_NOISE = 5, SW_SINE = 3,
      SW_SQUARE_10 = 11, SW_SQUARE_50 = 15, OUTPUT_BITS = 10,
      toneStepOf = (\<lambda>rate f. word_of_int ((f * 2 ^ 26) div rate))\<rparr>"




definition fullState :: WSynthesizer where
  "fullState =
     \<lparr>currSample = 20, sampleRate = 44100,
      playingSounds =
        [emptySlot\<lparr>sound := Some 10, PlayingSound.startSampleNo := 0, prevVolume := - 1\<rparr>,
         emptySlot\<lparr>sound := Some 20, PlayingSound.startSampleNo := 10, prevVolume := - 1\<rparr>],
      waiting =
        [(30, \<lparr>state = Waiting, instructions = [], startSampleNo = 20\<rparr>),
         (20, \<lparr>state = Playing, instructions = [], startSampleNo = 10\<rparr>),
         (10, \<lparr>state = Playing, instructions = [], startSampleNo = 0\<rparr>)],
      noiseX = noiseSeed\<rparr>"

definition fullState' :: WSynthesizer where
  "fullState' =
     \<lparr>currSample = 20, sampleRate = 44100,
      playingSounds =
        [emptySlot\<lparr>sound := Some 10, PlayingSound.startSampleNo := 0, prevVolume := - 1\<rparr>,
         emptySlot\<lparr>sound := Some 30, PlayingSound.startSampleNo := 20, prevVolume := - 1\<rparr>],
      waiting =
        [(30, \<lparr>state = Playing, instructions = [], startSampleNo = 20\<rparr>),
         (20, \<lparr>state = Done, instructions = [], startSampleNo = 10\<rparr>),
         (10, \<lparr>state = Playing, instructions = [], startSampleNo = 0\<rparr>)],
      noiseX = noiseSeed\<rparr>"

definition linkStructure :: "(addr \<times> WaitingSound) list \<Rightarrow> (addr \<times> SoundInstruction list \<times> int) list" where
  "linkStructure ws = map (\<lambda>p. (fst p, instructions (snd p), startSampleNo (snd p))) ws"

definition validRate :: "int \<Rightarrow> bool" where
  "validRate rate = (256 \<le> uint (samplesPerMS rate) \<and> 60000 * uint (samplesPerMS rate) < 2 ^ 32)"

definition slotOK :: "PlayingSound \<Rightarrow> bool" where
  "slotOK sd = (0 \<le> currInstr sd \<and> instrEnd sd \<le> int (length (instrData sd)))"

definition loopInv :: "LoopState \<Rightarrow> bool" where
  "loopInv st =
     (instrEnd (slot st) \<le> int (length (instrData (slot st))) \<and>
      (samplesLeft (locals st) = 0 \<and> - 1 \<le> currInstr (slot st) \<or>
       fn (locals st) \<noteq> None \<and> 0 \<le> currInstr (slot st)))"

definition sameBuf :: "PlayingSound \<Rightarrow> PlayingSound \<Rightarrow> bool" where
  "sameBuf sd sd' = (instrData sd' = instrData sd \<and> instrEnd sd' = instrEnd sd \<and> sound sd' = sound sd)"

definition wellFormed :: "Config \<Rightarrow> WSynthesizer \<Rightarrow> bool" where
  "wellFormed cfg s =
     (validRate (sampleRate s) \<and> playingSounds s \<noteq> [] \<and> list_all slotOK (playingSounds s) \<and>
      1 \<le> OUTPUT_BITS cfg \<and> OUTPUT_BITS cfg \<le> 16)"

definition inRange :: "Config \<Rightarrow> 16 word \<Rightarrow> bool" where
  "inRange cfg d = (- MAXVAL cfg \<le> sint d \<and> sint d \<le> MAXVAL cfg)"

definition beep :: SoundInstruction where
  "beep = \<lparr>soundWave = 15, frequency = 500, duration = 2, startVolume = 1023,
           endVolume = 1023, endFrequency = 500\<rparr>"

definition playState :: WSynthesizer where
  "playState =
     \<lparr>currSample = 0, sampleRate = 1000, playingSounds = [emptySlot],
      waiting = [(10, \<lparr>state = Waiting, instructions = [beep], startSampleNo = 0\<rparr>)],
      noiseX = noiseSeed\<rparr>"

definition boundSlot :: PlayingSound where
  "boundSlot = emptySlot\<lparr>sound := Some 10, instrData := [beep], instrEnd := 1, prevVolume := - 1\<rparr>"

definition boundState :: WSynthesizer where
  "boundState =
     \<lparr>currSample = 0, sampleRate = 1000, playingSounds = [boundSlot],
      waiting = [(10, \<lparr>state = Playing, instructions = [beep], startSampleNo = 0\<rparr>)],
      noiseX = noiseSeed\<rparr>"

definition loaded :: Locals where
  "loaded =
     \<lparr>fn = Some SquareWaveTone, toneStep = 33554432, toneDelta = 0, volumeStep = 0,
      tonePosition = 0, samplesLeft = 2, wave = 15, volume = 1023 * 2 ^ 16,
      prevFreq = 500, prevEndFreq = 500\<rparr>"

definition afterOne :: LoopState where
  "afterOne = \<lparr>slot = boundSlot, locals = loaded\<lparr>tonePosition := 33554432, samplesLeft := 1\<rparr>,
          noise = noiseSeed, terms = [- 512]\<rparr>"

definition afterTwo :: LoopState where
  "afterTwo = \<lparr>slot = boundSlot, locals = loaded\<lparr>tonePosition := 67108864, samplesLeft := 0\<rparr>,
          noise = noiseSeed, terms = [- 512, 511]\<rparr>"

definition loopStart :: LoopState where
  "loopStart = \<lparr>slot = boundSlot\<lparr>currInstr := - 1\<rparr>, locals = initLocals boundSlot,
          noise = noiseSeed, terms = []\<rparr>"

definition doneState :: WSynthesizer where
  "doneState =
     \<lparr>currSample = 3, sampleRate = 1000,
      playingSounds = [boundSlot\<lparr>sound := None, currInstr := 1\<rparr>],
      waiting = [(10, \<lparr>state = Done, instructions = [beep], startSampleNo = 0\<rparr>)],
      noiseX = noiseSeed\<rparr>"

definition midSlot :: PlayingSound where
  "midSlot = boundSlot\<lparr>PlayingSound.tonePosition := 67108864, samplesLeftInCurr := 1,
                        prevVolume := 1023 * 2 ^ 16, prevToneStep := 33554432\<rparr>"



definition resumeStart :: LoopState where
  "resumeStart = \<lparr>slot = midSlot\<lparr>currInstr := - 1\<rparr>, locals = initLocals midSlot,
           noise = noiseSeed, terms = []\<rparr>"

definition patchNode :: "addr \<Rightarrow> SoundInstruction list \<Rightarrow> addr \<times> WaitingSound \<Rightarrow> addr \<times> WaitingSound" where
  "patchNode a buf p = (if fst p = a then (fst p, (snd p)\<lparr>instructions := buf\<rparr>) else p)"

definition replaceBuffer :: "addr \<Rightarrow> SoundInstruction list \<Rightarrow> WSynthesizer \<Rightarrow> WSynthesizer" where
  "replaceBuffer a buf s = s\<lparr>waiting := map (patchNode a buf) (waiting s)\<rparr>"

definition aheadList :: "addr \<Rightarrow> int \<Rightarrow> (addr \<times> WaitingSound) list \<Rightarrow> bool" where
  "aheadList a lim ws =
     list_all (\<lambda>p. fst p \<noteq> a \<or> state (snd p) \<noteq> Waiting \<or> lim \<le> startSampleNo (snd p)) ws"


definition patchMix :: "addr \<Rightarrow> SoundInstruction list \<Rightarrow> MixState \<Rightarrow> MixState" where
  "patchMix a buf m = m\<lparr>mwaiting := map (patchNode a buf) (mwaiting m)\<rparr>"








text \<open>The clamped copy of the instruction under the cursor of a slot.\<close>

definition currentInstr :: "PlayingSound \<Rightarrow> SoundInstruction" where
  "currentInstr sd = clampInstr (instrData sd ! nat (currInstr sd))"



text \<open>
  A loop state seen from a resumed call: the slot is the saved one \<open>sv\<close> at the same
  cursor, and the first \<open>n\<close> terms, written by the call before, are dropped.
\<close>

definition retarget :: "PlayingSound \<Rightarrow> nat \<Rightarrow> LoopState \<Rightarrow> LoopState" where
  "retarget sv n st = st\<lparr>slot := sv\<lparr>currInstr := currInstr (slot st)\<rparr>, terms := drop n (terms st)\<rparr>"

text \<open>The slot as the \<^verbatim>\<open>else\<close> branch after the sample loop saves it.\<close>

definition saveSlot :: "LoopState \<Rightarrow> PlayingSound" where
  "saveSlot st =
     (slot st)\<lparr>PlayingSound.tonePosition := tonePosition (locals st),
               samplesLeftInCurr := (if samplesLeft (locals st) = 0 then samplesLeft (locals st) + 1
                                     else samplesLeft (locals st)),
               prevVolume := volume (locals st),
               prevToneDelta := toneDelta (locals st),
               prevToneStep := toneStep (locals st)\<rparr>"

text \<open>No instruction of the buffer of the slot selects the noise generator.\<close>

definition quiet :: "Config \<Rightarrow> PlayingSound \<Rightarrow> bool" where
  "quiet cfg sd = list_all (\<lambda>i. getWaveFn cfg (soundWave i) \<noteq> NoiseTone) (instrData sd)"



text \<open>The waiting list with the nodes at the addresses in \<open>A\<close> set to Done.\<close>

definition markDone :: "addr set \<Rightarrow> (addr \<times> WaitingSound) list \<Rightarrow> (addr \<times> WaitingSound) list" where
  "markDone A ws = map (\<lambda>p. if fst p \<in> A then (fst p, (snd p)\<lparr>state := Done\<rparr>) else p) ws"



section \<open>Waveform generators: properties\<close>

lemma sint_of_int32: "- (2 ^ 31) \<le> k \<Longrightarrow> k < 2 ^ 31 \<Longrightarrow> sint (word_of_int k :: 32 word) = k"
  by (simp add: sint_sbintrunc' signed_take_bit_int_eq_self)

lemma uint_le_1023: "(p :: 32 word) \<le> 1023 \<Longrightarrow> uint p \<le> 1023"
  by (simp add: word_le_def)

lemma sint_position: "(p :: 32 word) \<le> 1023 \<Longrightarrow> sint p = uint p"
proof -
  assume le: "p \<le> 1023"
  have a: "- (2 ^ 31) \<le> uint p" by (rule order_trans [of _ 0]) simp_all
  have b: "uint p < 2 ^ 31" using uint_le_1023 [OF le] by simp
  from sint_of_int32 [OF a b] show ?thesis by simp
qed

lemma sawtoothTone_eq: "p \<le> 1023 \<Longrightarrow> sawtoothTone p = 64 * uint p - 32767"
proof -
  assume le: "p \<le> 1023"
  define x where "x = uint p"
  have x: "0 \<le> x" "x \<le> 1023" using uint_le_1023 [OF le] by (simp_all add: x_def)
  have p: "p = word_of_int x" by (simp add: x_def)
  have "push_bit 6 p - 0x7fff = (word_of_int (64 * x - 32767) :: 32 word)"
    by (simp add: p push_bit_eq_mult)
  then have "sawtoothTone p = sint (word_of_int (64 * x - 32767) :: 32 word)"
    by (simp add: sawtoothTone_def)
  also have "\<dots> = 64 * x - 32767"
    using x by (intro sint_of_int32) auto
  finally show ?thesis by (simp add: x_def)
qed

lemma triangle_half: "p \<le> 1023 \<Longrightarrow> sint (push_bit 7 p - 0x7fff :: 32 word) = 128 * uint p - 32767"
proof -
  assume le: "p \<le> 1023"
  define x where "x = uint p"
  have x: "0 \<le> x" "x \<le> 1023" using uint_le_1023 [OF le] by (simp_all add: x_def)
  have p: "p = word_of_int x" by (simp add: x_def)
  have "push_bit 7 p - 0x7fff = (word_of_int (128 * x - 32767) :: 32 word)"
    by (simp add: p push_bit_eq_mult)
  then have "sint (push_bit 7 p - 0x7fff) = sint (word_of_int (128 * x - 32767) :: 32 word)"
    by simp
  also have "\<dots> = 128 * x - 32767"
    using x by (intro sint_of_int32) auto
  finally show ?thesis by (simp add: x_def)
qed

lemma uint_1023_minus: "(p :: 32 word) \<le> 1023 \<Longrightarrow> uint (1023 - p) = 1023 - uint p"
  by (simp add: uint_minus_simple_alt)

lemma triangleTone_eq:
  "p \<le> 1023 \<Longrightarrow>
   triangleTone p = (if uint p < 512 then 128 * uint p - 32767 else 128 * (1023 - uint p) - 32767)"
proof -
  assume le: "p \<le> 1023"
  have lt: "p < 512 \<longleftrightarrow> uint p < 512" by (simp add: word_less_def)
  have le': "1023 - p \<le> 1023" using le by (simp add: word_le_def uint_1023_minus)
  show ?thesis
    using le by (simp add: triangleTone_def lt triangle_half le' uint_1023_minus)
qed

lemma noiseTone_range: "- 32767 \<le> snd (noiseTone x) \<and> snd (noiseTone x) \<le> 32768"
proof -
  define y where "y = uint (xorshift x AND 0xffff)"
  have "xorshift x AND 0xffff \<le> 0xffff" by (rule word_and_le1)
  then have y: "0 \<le> y" "y \<le> 65535" by (simp_all add: y_def word_le_def)
  have w: "xorshift x AND 0xffff = word_of_int y" by (simp add: y_def)
  have "(xorshift x AND 0xffff) - 0x7fff = (word_of_int (y - 32767) :: 32 word)"
    by (simp add: w)
  then have "snd (noiseTone x) = sint (word_of_int (y - 32767) :: 32 word)"
    by (simp add: noiseTone_def Let_def)
  also have "\<dots> = y - 32767"
    using y by (intro sint_of_int32) auto
  finally show ?thesis using y by simp
qed

lemma sineFold_range: "0 \<le> x \<Longrightarrow> x \<le> 1023 \<Longrightarrow> 0 \<le> sineFold x \<and> sineFold x \<le> 256"
  by (auto simp: sineFold_def Let_def)

lemma sineFold_half: "0 \<le> x \<Longrightarrow> x \<le> 511 \<Longrightarrow> sineFold (x + 512) = sineFold x"
  by (auto simp: sineFold_def Let_def)

lemma sineFold_mirror: "0 < x \<Longrightarrow> x < 512 \<Longrightarrow> sineFold (512 - x) = sineFold x"
  by (auto simp: sineFold_def Let_def)

lemma sinePoly_0: "sinePoly 0 = 0"
  by (simp add: sinePoly_def)

lemma sinePoly_table:
  "list_all (\<lambda>p. 0 \<le> sinePoly p \<and> sinePoly p \<le> 32767) [0..256]"
  by code_simp

lemma sinePoly_range: "0 \<le> q \<Longrightarrow> q \<le> 256 \<Longrightarrow> 0 \<le> sinePoly q \<and> sinePoly q \<le> 32767"
  using sinePoly_table by (simp add: list_all_iff)

text \<open>
  No intermediate value of \<^verbatim>\<open>sineTone\<close> leaves the \<^verbatim>\<open>int32_t\<close> range: the products
  \<open>c * p2\<close>, \<open>u * p2\<close> and \<open>v * p\<close> are checked for every folded position.
\<close>

lemma sineTone_fits:
  "list_all (\<lambda>p. \<bar>sine_c * (p * p)\<bar> < 2 ^ 31 \<and>
                  \<bar>((sine_c * (p * p)) div 2 ^ 16 + sine_b) * (p * p)\<bar> < 2 ^ 31 \<and>
                  \<bar>((((sine_c * (p * p)) div 2 ^ 16 + sine_b) * (p * p)) div 2 ^ 16 + sine_a) * p\<bar> < 2 ^ 31)
     [0..256]"
  by code_simp

lemma sineTone_range: "p \<le> 1023 \<Longrightarrow> - 32767 \<le> sineTone p \<and> sineTone p \<le> 32767"
proof -
  assume le: "p \<le> 1023"
  have x: "0 \<le> uint p" "uint p \<le> 1023" using uint_le_1023 [OF le] by simp_all
  from sineFold_range [OF x] sinePoly_range [of "sineFold (uint p)"]
  have "0 \<le> sinePoly (sineFold (uint p)) \<and> sinePoly (sineFold (uint p)) \<le> 32767" by simp
  then show ?thesis
    by (simp add: sineTone_def Let_def sint_position [OF le])
qed

lemma callTone_range:
  assumes "position \<le> 1023"
  shows "- 32767 \<le> snd (callTone cfg f w position x) \<and>
         snd (callTone cfg f w position x) \<le> (if f = NoiseTone then 32768 else 32767)"
proof (cases f)
  case TriangleTone
  with assms uint_le_1023 [OF assms] show ?thesis by (simp add: triangleTone_eq)
next
  case SawtoothTone
  with assms uint_le_1023 [OF assms] show ?thesis by (simp add: sawtoothTone_eq)
next
  case NoiseTone
  with noiseTone_range [of x] show ?thesis by simp
next
  case SineTone
  with sineTone_range [OF assms] show ?thesis by simp
next
  case SquareWaveTone
  then show ?thesis by (simp add: squareWaveTone_def)
next
  case SilenceTone
  then show ?thesis by (simp add: silenceTone_def)
qed

lemma uint_plus_512: "(p :: 32 word) \<le> 511 \<Longrightarrow> uint (p + 512) = uint p + 512"
proof -
  assume "p \<le> 511"
  then have "uint p \<le> 511" by (simp add: word_le_def)
  then have "uint p + 512 < 2 ^ 32" by simp
  then show ?thesis by (simp add: uint_word_ariths)
qed

lemma uint_512_minus: "(p :: 32 word) \<le> 512 \<Longrightarrow> uint (512 - p) = 512 - uint p"
  by uint_arith

lemma sineTone_int:
  "p \<le> 1023 \<Longrightarrow>
   sineTone p = (if 512 \<le> uint p then - sinePoly (sineFold (uint p)) else sinePoly (sineFold (uint p)))"
  by (simp add: sineTone_def Let_def sint_position word_le_def)

lemma sineTone_antisym: "p \<le> 511 \<Longrightarrow> sineTone (p + 512) = - sineTone p"
proof -
  assume le: "p \<le> 511"
  have u: "uint p \<le> 511" using le by (simp add: word_le_def)
  have u2: "uint (p + 512) = uint p + 512" by (rule uint_plus_512 [OF le])
  have le1: "p \<le> 1023" using u by (simp add: word_le_def)
  have le2: "p + 512 \<le> 1023" using u u2 by (simp add: word_le_def)
  show ?thesis
    using u by (simp add: sineTone_int [OF le1] sineTone_int [OF le2] u2 sineFold_half)
qed

lemma sineTone_sym: "p \<le> 512 \<Longrightarrow> sineTone (512 - p) = sineTone p"
proof -
  assume le: "p \<le> 512"
  have u: "uint p \<le> 512" using le by (simp add: word_le_def)
  have u2: "uint (512 - p) = 512 - uint p" by (rule uint_512_minus [OF le])
  have le1: "p \<le> 1023" using u by (simp add: word_le_def)
  have nn: "0 \<le> uint p" by simp
  have "uint (512 - p) \<le> 1023" unfolding u2 using nn by linarith
  then have le2: "512 - p \<le> 1023" by (simp add: word_le_def)
  consider "uint p = 0" | "uint p = 512" | "0 < uint p" "uint p < 512"
    using u nn by linarith
  then show ?thesis
  proof cases
    case 1
    then show ?thesis
      by (simp add: sineTone_int [OF le1] sineTone_int [OF le2] u2 sineFold_def sinePoly_0)
  next
    case 2
    then show ?thesis
      by (simp add: sineTone_int [OF le1] sineTone_int [OF le2] u2 sineFold_def sinePoly_0)
  next
    case 3
    then show ?thesis
      by (simp add: sineTone_int [OF le1] sineTone_int [OF le2] u2 sineFold_mirror)
  qed
qed

text \<open>
  Claim C9.  The sine generator is antisymmetric between its two half-cycles and
  symmetric about the half-cycle peak: for every phase \<open>p\<close> in \<open>[0, 511]\<close> the output
  at \<open>p + 512\<close> is the negation of the output at \<open>p\<close>, and for every \<open>p\<close> in
  \<open>[0, 512]\<close> the output at \<open>512 - p\<close> is the output at \<open>p\<close>.
\<close>

theorem sineTone_symmetry:
  "(p \<le> 511 \<longrightarrow> sineTone (p + 512) = - sineTone p) \<and>
   (p \<le> 512 \<longrightarrow> sineTone (512 - p) = sineTone p)"
  by (simp add: sineTone_antisym sineTone_sym)

theorem sineTone_symmetry_witness:
  "(100 :: 32 word) \<le> 511 \<and> sineTone (100 + 512) = - sineTone 100 \<and>
   (100 :: 32 word) \<le> 512 \<and> sineTone (512 - 100) = sineTone 100"
  using sineTone_symmetry [of 100] by simp

text \<open>
  Claim C4, as stated, asks for every generator to stay within \<open>[-32767, 32767]\<close>.
  The noise generator returns the low 16 bits of its state minus \<open>0x7fff\<close>, which is
  \<open>32768\<close> when the 16 bits are all set: this happens on the 34677th call after the
  seed \<open>0xf01ba80\<close>, from the state \<open>0xB245FA94\<close>.
\<close>

theorem noiseTone_exceeds: "snd (noiseTone 0xB245FA94) = 32768"
  by (simp add: noiseTone_def xorshift_def)

text \<open>
  Claim C4, amended.  For every selector and every phase position in \<open>[0, 1023]\<close>,
  the generator that \<open>getWaveFn\<close> selects (sine, sawtooth, triangle, every square
  variant, the silence fallback) returns an amplitude within \<open>[-32767, 32767]\<close>; the
  noise generator returns an amplitude within \<open>[-32767, 32768]\<close>.
\<close>

theorem waveform_range:
  "position \<le> 1023 \<Longrightarrow>
   - 32767 \<le> snd (callTone cfg (getWaveFn cfg w) w position x) \<and>
   snd (callTone cfg (getWaveFn cfg w) w position x)
     \<le> (if getWaveFn cfg w = NoiseTone then 32768 else 32767)"
  by (rule callTone_range)

theorem waveform_range_witness:
  "(700 :: 32 word) \<le> 1023 \<and>
   - 32767 \<le> snd (callTone exampleConfig (getWaveFn exampleConfig 3) 3 700 noiseSeed) \<and>
   snd (callTone exampleConfig (getWaveFn exampleConfig 3) 3 700 noiseSeed)
     \<le> (if getWaveFn exampleConfig 3 = NoiseTone then 32768 else 32767)"
  using waveform_range [of 700 exampleConfig 3 noiseSeed] by simp

section \<open>Scheduler: properties\<close>

lemma timesOf_Nil [simp]: "timesOf now [] = []"
  by (simp add: timesOf_def)

lemma timesOf_Cons [simp]:
  "timesOf now (q # ws) =
     (if state (snd q) = Waiting then (startSampleNo (snd q) - now) # timesOf now ws else timesOf now ws)"
  by (simp add: timesOf_def)



lemma bindSound_currSample [simp]: "currSample (bindSound s p) = currSample s"
  by (simp add: bindSound_def Let_def)







lemma full0: "chooseSlot (playingSounds fullState) = 1"
  by (simp add: fullState_def chooseSlot_def slotLoop.simps emptySlot_def)

lemma full1:
  "bindSound fullState (30, \<lparr>state = Waiting, instructions = [], startSampleNo = 20\<rparr>) = fullState'"
  by (simp add: bindSound_def full0 Let_def)
     (simp add: fullState_def fullState'_def evictOld_def emptySlot_def)

lemma full2:
  "scanWaiting (currSample fullState) (waiting fullState) maxTime
     = (Some (30, \<lparr>state = Waiting, instructions = [], startSampleNo = 20\<rparr>), maxTime)"
  by (simp add: fullState_def)

lemma full3: "scanWaiting (currSample fullState') (waiting fullState') maxTime = (None, maxTime)"
  by (simp add: fullState'_def maxTime_def)

lemma fullState_run: "updateQueues fullState = (maxTime, fullState')"
  by (simp add: updateQueues.simps [of fullState] full2 full1)
     (simp add: updateQueues.simps [of fullState'] full3)

text \<open>
  Claim C1 says that the scheduler evicts the slot whose sound has the smallest
  \<open>startSampleNo\<close>.  In \<open>fullState\<close> both slots are occupied, slot 0 since sample 0 by
  the sound at address 10 and slot 1 since sample 10 by the sound at address 20, and
  the sound at address 30 is due.  \<open>updateQueues\<close> rebinds slot 1 and sets the sound at
  address 20 to Done: the comparison in the slot search keeps the largest
  \<open>startSampleNo\<close>, so the sound that started last is evicted and the one that has
  played longest stays.
\<close>

theorem updateQueues_evicts_newest:
  "map sound (playingSounds fullState) = [Some 10, Some 20] \<and>
   map PlayingSound.startSampleNo (playingSounds fullState) = [0, 10] \<and>
   map sound (playingSounds (snd (updateQueues fullState))) = [Some 10, Some 30] \<and>
   map (\<lambda>p. (fst p, state (snd p))) (waiting (snd (updateQueues fullState)))
     = [(30, Playing), (20, Done), (10, Playing)]"
  by (simp add: fullState_run) (simp add: fullState_def fullState'_def emptySlot_def)

section \<open>Queue management: properties\<close>

lemma dropDone_eq:
  "dropDone ws = (dropWhile (\<lambda>q. state (snd q) = Done) ws, takeWhile (\<lambda>q. state (snd q) = Done) ws)"
  by (induction ws) (simp_all add: Let_def)

lemma filter_takeWhile_dropWhile:
  "filter P ws = takeWhile P ws @ filter P (dropWhile P ws)"
  by (induction ws) simp_all

lemma filter_not_takeWhile_dropWhile:
  "filter (\<lambda>x. \<not> P x) ws = filter (\<lambda>x. \<not> P x) (dropWhile P ws)"
  by (induction ws) simp_all

lemma sweep_eq:
  "sweep ws = (filter (\<lambda>q. state (snd q) \<noteq> Done) ws, filter (\<lambda>q. state (snd q) = Done) ws)"
proof (induction ws rule: sweep.induct)
  case (1 succs)
  let ?P = "\<lambda>q :: addr \<times> WaitingSound. state (snd q) = Done"
  let ?N = "\<lambda>q :: addr \<times> WaitingSound. state (snd q) \<noteq> Done"
  have dd: "dropDone succs = (dropWhile ?P succs, takeWhile ?P succs)" by (rule dropDone_eq)
  show ?case
  proof (cases "dropWhile ?P succs")
    case Nil
    have f1: "filter ?P succs = takeWhile ?P succs"
      using filter_takeWhile_dropWhile [of ?P succs] by (simp only: Nil filter.simps append_Nil2)
    have f2: "filter ?N succs = []"
      using filter_not_takeWhile_dropWhile [of ?P succs] by (simp only: Nil filter.simps)
    have "sweep succs = ([], takeWhile ?P succs)"
      by (simp add: sweep.simps [of succs] dd Nil)
    with f1 f2 show ?thesis by simp
  next
    case (Cons p rest)
    then have np: "\<not> ?P p" using hd_dropWhile [of ?P succs] by auto
    from Cons have "fst (dropDone succs) = p # rest" by (simp add: dd)
    from "1.IH" [OF refl this]
    have ih: "sweep rest = (filter ?N rest, filter ?P rest)" .
    have "filter ?P (p # rest) = filter ?P rest" using np by simp
    with filter_takeWhile_dropWhile [of ?P succs]
    have f1: "filter ?P succs = takeWhile ?P succs @ filter ?P rest"
      by (simp only: Cons)
    have "filter ?N (p # rest) = p # filter ?N rest" using np by simp
    with filter_not_takeWhile_dropWhile [of ?P succs]
    have f2: "filter ?N succs = p # filter ?N rest"
      by (simp only: Cons)
    have "sweep succs = (p # filter ?N rest, takeWhile ?P succs @ filter ?P rest)"
      by (simp add: sweep.simps [of succs] dd Cons ih)
    with f1 f2 show ?thesis by simp
  qed
qed

text \<open>
  Claim C7.  After \<open>queuePlayInstructions\<close> returns, the new sound is at the head of
  the waiting list in the Waiting state, followed by the nodes of the old list that
  are not Done, in their order; no Done node remains in the list; and the tracker
  calls are one register call for the new buffer, then one unregister call for the
  buffer of each unlinked node.
\<close>

theorem queuePlayInstructions_cleanup:
  "waiting (fst (queuePlayInstructions a delay buf s)) =
     (a, \<lparr>state = Waiting, instructions = buf,
          startSampleNo = currSample s + tdiv (delay * sampleRate s) 1000\<rparr>)
     # filter (\<lambda>q. state (snd q) \<noteq> Done) (waiting s) \<and>
   filter (\<lambda>q. state (snd q) = Done) (waiting (fst (queuePlayInstructions a delay buf s))) = [] \<and>
   snd (queuePlayInstructions a delay buf s) =
     RegisterGCObj buf #
     map (\<lambda>todel. UnregisterGCObj (instructions (snd todel)))
       (filter (\<lambda>q. state (snd q) = Done) (waiting s))"
  by (simp add: queuePlayInstructions_def Let_def sweep_eq)

section \<open>Mixer: what a call leaves unchanged\<close>

lemma linkStructure_setState [simp]: "linkStructure (setState a st ws) = linkStructure ws"
  by (induction ws) (auto simp: linkStructure_def)

lemma linkStructure_evictOld [simp]: "linkStructure (evictOld sd ws) = linkStructure ws"
  by (simp add: evictOld_def split: option.splits)

lemma linkStructure_bindSound [simp]: "linkStructure (waiting (bindSound s p)) = linkStructure (waiting s)"
  by (simp add: waiting_bindSound)

lemma sampleRate_bindSound [simp]: "sampleRate (bindSound s p) = sampleRate s"
  by (simp add: bindSound_def Let_def)

lemma noiseX_bindSound [simp]: "noiseX (bindSound s p) = noiseX s"
  by (simp add: bindSound_def Let_def)

lemma updateQueues_frame:
  "linkStructure (waiting (snd (updateQueues s))) = linkStructure (waiting s) \<and>
   sampleRate (snd (updateQueues s)) = sampleRate s \<and>
   currSample (snd (updateQueues s)) = currSample s \<and>
   noiseX (snd (updateQueues s)) = noiseX s"
proof (induction s rule: updateQueues.induct)
  case (1 s)
  obtain r m where sc: "scanWaiting (currSample s) (waiting s) maxTime = (r, m)"
    by (cases "scanWaiting (currSample s) (waiting s) maxTime")
  show ?case
  proof (cases r)
    case None
    with sc show ?thesis by (simp add: updateQueues.simps [of s])
  next
    case (Some p)
    with sc have "updateQueues s = updateQueues (bindSound s p)"
      by (simp add: updateQueues.simps [of s])
    with "1.IH" [OF sc [symmetric] Some] show ?thesis by simp
  qed
qed

lemma length_addTerms [simp]: "length (addTerms ds vs) = length ds"
  by (induction ds vs rule: addTerms.induct) simp_all

lemma playSlot_frame:
  "playSlot cfg rate n sd m = Some (sd', m') \<Longrightarrow>
   linkStructure (mwaiting m') = linkStructure (mwaiting m) \<and> length (dst m') = length (dst m)"
  by (auto simp: playSlot_def Let_def split: option.splits if_splits)

lemma mixSlots_frame:
  "mixSlots cfg rate n ps m = Some (ps', m') \<Longrightarrow>
   linkStructure (mwaiting m') = linkStructure (mwaiting m) \<and> length (dst m') = length (dst m) \<and>
   length ps' = length ps"
proof (induction ps arbitrary: m ps' m')
  case Nil
  then show ?case by simp
next
  case (Cons sd rest)
  from Cons.prems obtain sd1 m1 rest1 where
    a: "playSlot cfg rate n sd m = Some (sd1, m1)" and
    b: "mixSlots cfg rate n rest m1 = Some (rest1, m')" and c: "ps' = sd1 # rest1"
    by (auto split: option.splits)
  from playSlot_frame [OF a] Cons.IH [OF b] c show ?case by simp
qed

lemma mixDown_frame:
  "mixDown cfg n s = Some (r, out, s') \<Longrightarrow>
   linkStructure (waiting s') = linkStructure (waiting s) \<and> sampleRate s' = sampleRate s \<and>
   length out = n \<and> currSample s' = currSample s + int n \<and>
   length (playingSounds s') = length (playingSounds s)"
proof -
  assume a: "mixDown cfg n s = Some (r, out, s')"
  then obtain ps m where
    b: "mixSlots cfg (sampleRate s) n (playingSounds s)
          \<lparr>mwaiting = waiting s, mnoise = noiseX s, dst = replicate n 0,
           res = (if waiting s \<noteq> [] then 1 else 0)\<rparr> = Some (ps, m)"
    and c: "out = map (clampOut cfg) (dst m)"
      "s' = s\<lparr>playingSounds := ps, waiting := mwaiting m, noiseX := mnoise m,
               currSample := currSample s + int n\<rparr>"
    by (auto simp: mixDown_def split: option.splits)
  from mixSlots_frame [OF b] c show ?thesis by simp
qed

text \<open>
  Claim C8.  \<open>fillSamples\<close> never modifies the link structure of the waiting list: the
  sequence of nodes (each node's successor), the instruction buffer of each node and
  its \<open>startSampleNo\<close> are the same before and after the call, and so is the sample
  rate.  What it changes is the \<open>state\<close> fields, the slot array, the sample counter
  (and the static state of the noise generator, which is not part of the
  synthesizer object).
\<close>

theorem fillSamples_frame:
  "fillSamples cfg numsamples s = Some (r, out, s') \<Longrightarrow>
   linkStructure (waiting s') = linkStructure (waiting s) \<and> sampleRate s' = sampleRate s"
proof (induction cfg numsamples s arbitrary: r out s' rule: fillSamples.induct)
  case (1 cfg numsamples s)
  show ?case
  proof (cases "numsamples \<le> 0")
    case True
    with "1.prems" show ?thesis by (simp add: fillSamples.simps [of cfg numsamples s])
  next
    case pos: False
    define timeLeft where "timeLeft = fst (updateQueues s)"
    define s1 where "s1 = snd (updateQueues s)"
    have uq: "linkStructure (waiting s1) = linkStructure (waiting s)" "sampleRate s1 = sampleRate s"
      using updateQueues_frame [of s] by (simp_all add: s1_def)
    show ?thesis
    proof (cases "timeLeft < numsamples")
      case True
      with pos "1.prems" obtain r1 d1 s2 r2 d2 where
        a: "fillSamples cfg timeLeft s1 = Some (r1, d1, s2)" and
        b: "fillSamples cfg (numsamples - timeLeft) s2 = Some (r2, d2, s')"
        by (auto simp: fillSamples.simps [of cfg numsamples s] Let_def timeLeft_def s1_def
                 split: option.splits)
      have ih1: "linkStructure (waiting s2) = linkStructure (waiting s1) \<and> sampleRate s2 = sampleRate s1"
        using "1.IH"(1) [OF pos refl timeLeft_def s1_def True a] .
      have ih2: "linkStructure (waiting s') = linkStructure (waiting s2) \<and> sampleRate s' = sampleRate s2"
        using "1.IH"(2) [OF pos refl timeLeft_def s1_def True a refl refl b] .
      from ih1 ih2 uq show ?thesis by simp
    next
      case False
      with pos "1.prems" have "mixDown cfg (nat numsamples) s1 = Some (r, out, s')"
        by (simp add: fillSamples.simps [of cfg numsamples s] Let_def timeLeft_def s1_def)
      from mixDown_frame [OF this] uq show ?thesis by simp
    qed
  qed
qed

section \<open>Mixer: every call returns, with samples in range\<close>

lemma uint_of_int32: "0 \<le> k \<Longrightarrow> k < 2 ^ 32 \<Longrightarrow> uint (word_of_int k :: 32 word) = k"
  by (simp add: uint_word_of_int take_bit_int_eq_self)

lemma CLAMP_range: "lo \<le> hi \<Longrightarrow> lo \<le> CLAMP lo v hi \<and> CLAMP lo v hi \<le> hi"
  by (simp add: CLAMP_def)

lemma sampleCount_pos:
  assumes "validRate rate" "1 \<le> d" "d \<le> 60000"
  shows "0 < sint (drop_bit 8 (word_of_int d * samplesPerMS rate) :: 32 word)"
proof -
  define spm where "spm = uint (samplesPerMS rate)"
  have spm: "256 \<le> spm" "60000 * spm < 2 ^ 32"
    using assms(1) by (simp_all add: validRate_def spm_def)
  have w: "samplesPerMS rate = word_of_int spm" by (simp add: spm_def)
  have lo: "256 \<le> d * spm"
  proof -
    have "1 * 256 \<le> d * spm" using assms(2) spm(1) by (intro mult_mono) auto
    then show ?thesis by simp
  qed
  have hi: "d * spm < 2 ^ 32"
  proof -
    have "d * spm \<le> 60000 * spm" using assms(3) spm(1) by (intro mult_right_mono) auto
    with spm(2) show ?thesis by linarith
  qed
  have u: "uint (word_of_int d * samplesPerMS rate :: 32 word) = d * spm"
  proof -
    have "word_of_int d * samplesPerMS rate = (word_of_int (d * spm) :: 32 word)"
      by (simp add: w)
    moreover have "uint (word_of_int (d * spm) :: 32 word) = d * spm"
      using lo hi by (intro uint_of_int32) auto
    ultimately show ?thesis by simp
  qed
  define n where "n = (d * spm) div 256"
  have n: "1 \<le> n" "n < 2 ^ 31" using lo hi by (simp_all add: n_def)
  have "uint (drop_bit 8 (word_of_int d * samplesPerMS rate) :: 32 word) = n"
    by (simp add: drop_bit_eq_div uint_div u n_def)
  then have "drop_bit 8 (word_of_int d * samplesPerMS rate) = (word_of_int n :: 32 word)"
    by (metis word_of_int_uint)
  moreover have "sint (word_of_int n :: 32 word) = n"
    using n by (intro sint_of_int32) auto
  ultimately show ?thesis using n by simp
qed

lemma cdiv_pos: "0 < b \<Longrightarrow> cdiv a b = Some (tdiv a b)"
  by (simp add: cdiv_def)

lemma loadInstr_Some:
  assumes "validRate rate" "0 \<le> currInstr sd" "currInstr sd < int (length (instrData sd))"
  shows "\<exists>l'. loadInstr cfg rate first sd l = Some l' \<and> fn l' \<noteq> None"
proof -
  define instr where "instr = clampInstr (instrData sd ! nat (currInstr sd))"
  define n :: "32 word" where "n = drop_bit 8 (word_of_int (duration instr) * samplesPerMS rate)"
  have d: "1 \<le> duration instr" "duration instr \<le> 60000"
    using CLAMP_range [of 1 60000] by (simp_all add: instr_def clampInstr_def)
  have pos: "0 < sint n" unfolding n_def by (rule sampleCount_pos [OF assms(1) d])
  show ?thesis
    using assms(2,3) pos
    by (simp add: loadInstr_def Let_def instr_def [symmetric] n_def [symmetric] cdiv_pos)
qed

lemma emitSample_Some:
  assumes "fn (locals st) \<noteq> None"
  shows "\<exists>st'. emitSample cfg st = Some (Next st') \<and> slot st' = slot st \<and>
          fn (locals st') = fn (locals st) \<and> length (terms st') = Suc (length (terms st))"
  using assms by (auto simp: emitSample_def Let_def)

lemma sampleStep_inv:
  assumes "validRate rate" "loopInv st"
  shows "\<exists>st'. (sampleStep cfg rate first st = Some (Break st') \<and> terms st' = terms st \<or>
               sampleStep cfg rate first st = Some (Next st') \<and> loopInv st' \<and>
               length (terms st') = Suc (length (terms st))) \<and>
              0 \<le> currInstr (slot st') \<and> sameBuf (slot st) (slot st')"
proof (cases "samplesLeft (locals st) = 0")
  case True
  define sd where "sd = (slot st)\<lparr>currInstr := currInstr (slot st) + 1\<rparr>"
  have sd: "0 \<le> currInstr sd" "instrEnd sd \<le> int (length (instrData sd))" "sameBuf (slot st) sd"
    using assms(2) True by (auto simp: loopInv_def sd_def sameBuf_def)
  show ?thesis
  proof (cases "currInstr sd \<ge> instrEnd sd")
    case ge: True
    with True sd show ?thesis
      by (intro exI [of _ "st\<lparr>slot := sd\<rparr>"]) (simp add: sampleStep_def Let_def sd_def [symmetric])
  next
    case lt: False
    with sd have "currInstr sd < int (length (instrData sd))" by simp
    from loadInstr_Some [OF assms(1) sd(1) this, of cfg first "locals st"]
    obtain l where l: "loadInstr cfg rate first sd (locals st) = Some l" "fn l \<noteq> None" by blast
    from emitSample_Some [of "st\<lparr>slot := sd, locals := l\<rparr>" cfg] l(2)
    obtain st' where st': "emitSample cfg (st\<lparr>slot := sd, locals := l\<rparr>) = Some (Next st')"
      "slot st' = sd" "fn (locals st') = Some (the (fn l))" "length (terms st') = Suc (length (terms st))"
      by auto
    have "sampleStep cfg rate first st = Some (Next st')"
      using True lt l(1) st'(1) by (simp add: sampleStep_def Let_def sd_def [symmetric])
    moreover have "loopInv st'" using st'(2,3) sd by (simp add: loopInv_def)
    ultimately show ?thesis using st'(2,4) sd by auto
  qed
next
  case False
  with assms(2) have f: "fn (locals st) \<noteq> None" "0 \<le> currInstr (slot st)"
    "instrEnd (slot st) \<le> int (length (instrData (slot st)))"
    by (auto simp: loopInv_def)
  from emitSample_Some [OF f(1), of cfg]
  obtain st' where st': "emitSample cfg st = Some (Next st')" "slot st' = slot st"
    "fn (locals st') = fn (locals st)" "length (terms st') = Suc (length (terms st))"
    by auto
  have "sampleStep cfg rate first st = Some (Next st')"
    using False st'(1) by (simp add: sampleStep_def)
  moreover have "loopInv st'" using st'(2,3) f by (simp add: loopInv_def)
  ultimately show ?thesis using st'(2,4) f by (auto simp: sameBuf_def)
qed

lemma sameBuf_refl [simp]: "sameBuf sd sd"
  by (simp add: sameBuf_def)

lemma sameBuf_trans: "sameBuf a b \<Longrightarrow> sameBuf b c \<Longrightarrow> sameBuf a c"
  by (simp add: sameBuf_def)

lemma sampleLoop_Some:
  assumes "validRate rate"
  shows "loopInv st \<Longrightarrow>
         \<exists>st'. sampleLoop cfg rate k first st = Some st' \<and>
               (k = 0 \<and> st' = st \<or> 0 \<le> currInstr (slot st')) \<and>
               sameBuf (slot st) (slot st') \<and>
               length (terms st') \<le> length (terms st) + k"
proof (induction k arbitrary: st first)
  case 0
  then show ?case by simp
next
  case (Suc k)
  from sampleStep_inv [OF assms Suc.prems, of cfg first]
  obtain st1 where
    alt: "sampleStep cfg rate first st = Some (Break st1) \<and> terms st1 = terms st \<or>
          sampleStep cfg rate first st = Some (Next st1) \<and> loopInv st1 \<and>
          length (terms st1) = Suc (length (terms st))"
    and c: "0 \<le> currInstr (slot st1)" and sb: "sameBuf (slot st) (slot st1)"
    by blast
  from alt show ?case
  proof
    assume "sampleStep cfg rate first st = Some (Break st1) \<and> terms st1 = terms st"
    with c sb show ?thesis by (intro exI [of _ st1]) simp
  next
    assume a: "sampleStep cfg rate first st = Some (Next st1) \<and> loopInv st1 \<and>
               length (terms st1) = Suc (length (terms st))"
    from Suc.IH [of st1 False] a
    obtain st' where st': "sampleLoop cfg rate k False st1 = Some st'"
      "k = 0 \<and> st' = st1 \<or> 0 \<le> currInstr (slot st')"
      "sameBuf (slot st1) (slot st')"
      "length (terms st') \<le> length (terms st1) + k"
      by blast
    from st'(2) c have "0 \<le> currInstr (slot st')" by auto
    with a st' sameBuf_trans [OF sb st'(3)] show ?thesis
      by (intro exI [of _ st']) simp
  qed
qed

lemma playSlot_ok:
  assumes "validRate rate" "slotOK sd" "0 < n"
  shows "\<exists>sd' m'. playSlot cfg rate n sd m = Some (sd', m') \<and> slotOK sd'"
proof (cases "sound sd")
  case None
  with assms(2) show ?thesis by (simp add: playSlot_def)
next
  case (Some a)
  define st0 where
    "st0 = \<lparr>slot = sd\<lparr>currInstr := currInstr sd - 1\<rparr>, locals = initLocals sd,
            noise = mnoise m, terms = []\<rparr>"
  have "loopInv st0" using assms(2) by (simp add: loopInv_def st0_def slotOK_def initLocals_def)
  from sampleLoop_Some [OF assms(1) this, of cfg n True] assms(3)
  obtain st where st: "sampleLoop cfg rate n True st0 = Some st" "0 \<le> currInstr (slot st)"
    "sameBuf (slot st0) (slot st)"
    by auto
  from st(3) assms(2) have "instrEnd (slot st) \<le> int (length (instrData (slot st)))"
    by (simp add: sameBuf_def st0_def slotOK_def)
  with st(1,2) Some show ?thesis
    by (simp add: playSlot_def st0_def [symmetric] Let_def slotOK_def)
qed

lemma mixSlots_ok:
  assumes "validRate rate" "0 < n"
  shows "list_all slotOK ps \<Longrightarrow>
         \<exists>ps' m'. mixSlots cfg rate n ps m = Some (ps', m') \<and> list_all slotOK ps'"
proof (induction ps arbitrary: m)
  case Nil
  then show ?case by simp
next
  case (Cons sd rest)
  then have ok: "slotOK sd" "list_all slotOK rest" by simp_all
  from playSlot_ok [OF assms(1) ok(1) assms(2), of cfg m]
  obtain sd1 m1 where a: "playSlot cfg rate n sd m = Some (sd1, m1)" "slotOK sd1" by blast
  from Cons.IH [OF ok(2), of m1]
  obtain rest1 m2 where b: "mixSlots cfg rate n rest m1 = Some (rest1, m2)" "list_all slotOK rest1"
    by blast
  from a b show ?case by simp
qed

lemma MAXVAL_range: "1 \<le> OUTPUT_BITS cfg \<Longrightarrow> OUTPUT_BITS cfg \<le> 16 \<Longrightarrow> 0 \<le> MAXVAL cfg \<and> MAXVAL cfg \<le> 32767"
proof -
  assume a: "1 \<le> OUTPUT_BITS cfg" "OUTPUT_BITS cfg \<le> 16"
  have "(2 :: int) ^ (OUTPUT_BITS cfg - 1) \<le> 2 ^ 15"
    using a by (intro power_increasing) auto
  moreover have "(1 :: int) \<le> 2 ^ (OUTPUT_BITS cfg - 1)" by simp
  ultimately show ?thesis by (simp add: MAXVAL_def)
qed

lemma sint_of_int16: "- (2 ^ 15) \<le> k \<Longrightarrow> k < 2 ^ 15 \<Longrightarrow> sint (word_of_int k :: 16 word) = k"
  by (simp add: sint_sbintrunc' signed_take_bit_int_eq_self)

lemma clampOut_range:
  assumes "1 \<le> OUTPUT_BITS cfg" "OUTPUT_BITS cfg \<le> 16"
  shows "- MAXVAL cfg \<le> sint (clampOut cfg d) \<and> sint (clampOut cfg d) \<le> MAXVAL cfg"
proof -
  from MAXVAL_range [OF assms] have m: "0 \<le> MAXVAL cfg" "MAXVAL cfg \<le> 32767" by simp_all
  have p: "sint (word_of_int (MAXVAL cfg) :: 16 word) = MAXVAL cfg"
    by (rule sint_of_int16) (use m in auto)
  have n: "sint (word_of_int (- MAXVAL cfg) :: 16 word) = - MAXVAL cfg"
    by (rule sint_of_int16) (use m in auto)
  show ?thesis
  proof (cases "sint d > MAXVAL cfg")
    case True
    with p m show ?thesis by (simp only: clampOut_def if_True) simp
  next
    case False
    show ?thesis
    proof (cases "sint d < - MAXVAL cfg")
      case True
      with False n m show ?thesis by (simp only: clampOut_def if_True if_False) simp
    next
      case F2: False
      with False show ?thesis by (simp only: clampOut_def if_False) simp
    qed
  qed
qed

lemma mixDown_ok:
  assumes "wellFormed cfg s" "0 < n"
  shows "\<exists>r out s'. mixDown cfg n s = Some (r, out, s') \<and> wellFormed cfg s' \<and>
           length out = n \<and> list_all (inRange cfg) out \<and> currSample s' = currSample s + int n"
proof -
  from assms(1) have wf: "validRate (sampleRate s)" "playingSounds s \<noteq> []"
    "list_all slotOK (playingSounds s)" "1 \<le> OUTPUT_BITS cfg" "OUTPUT_BITS cfg \<le> 16"
    by (simp_all add: wellFormed_def)
  define m0 where
    "m0 = \<lparr>mwaiting = waiting s, mnoise = noiseX s, dst = replicate n 0,
           res = (if waiting s \<noteq> [] then 1 else 0)\<rparr>"
  from mixSlots_ok [OF wf(1) assms(2) wf(3), of cfg m0]
  obtain ps m where b: "mixSlots cfg (sampleRate s) n (playingSounds s) m0 = Some (ps, m)"
    "list_all slotOK ps" by blast
  from mixSlots_frame [OF b(1)] have len: "length (dst m) = n" "length ps = length (playingSounds s)"
    by (simp_all add: m0_def)
  from len(2) wf(2) have ne: "ps \<noteq> []" by auto
  have rng: "list_all (inRange cfg) (map (clampOut cfg) (dst m))"
    using clampOut_range [OF wf(4,5)] by (simp add: list_all_iff inRange_def)
  show ?thesis
    using b len ne rng wf
    by (simp add: mixDown_def m0_def [symmetric] wellFormed_def)
qed

lemma slotOK_bound: "slotOK (sd\<lparr>sound := Some a, PlayingSound.startSampleNo := c, instrData := ins,
                       currInstr := 0, instrEnd := int (length ins), prevVolume := v\<rparr>)"
  by (simp add: slotOK_def)

lemma list_all_update: "list_all P xs \<Longrightarrow> P x \<Longrightarrow> list_all P (xs[i := x])"
  by (induction xs arbitrary: i) (auto split: nat.splits)

lemma bindSound_wellFormed: "wellFormed cfg s \<Longrightarrow> wellFormed cfg (bindSound s p)"
  by (simp add: wellFormed_def bindSound_def Let_def list_all_update slotOK_bound)

lemma updateQueues_wellFormed: "wellFormed cfg s \<Longrightarrow> wellFormed cfg (snd (updateQueues s))"
proof (induction s rule: updateQueues.induct)
  case (1 s)
  obtain r m where sc: "scanWaiting (currSample s) (waiting s) maxTime = (r, m)"
    by (cases "scanWaiting (currSample s) (waiting s) maxTime")
  show ?case
  proof (cases r)
    case None
    with sc "1.prems" show ?thesis by (simp add: updateQueues.simps [of s])
  next
    case (Some p)
    with sc have "updateQueues s = updateQueues (bindSound s p)"
      by (simp add: updateQueues.simps [of s])
    with "1.IH" [OF sc [symmetric] Some bindSound_wellFormed [OF "1.prems"]] show ?thesis by simp
  qed
qed

lemma fillSamples_ok:
  "0 < numsamples \<Longrightarrow> wellFormed cfg s \<Longrightarrow>
   \<exists>r out s'. fillSamples cfg numsamples s = Some (r, out, s') \<and> wellFormed cfg s' \<and>
     int (length out) = numsamples \<and> list_all (inRange cfg) out \<and>
     currSample s' = currSample s + numsamples"
proof (induction cfg numsamples s rule: fillSamples.induct)
  case (1 cfg numsamples s)
  from "1.prems"(1) have pos: "\<not> numsamples \<le> 0" by simp
  define timeLeft where "timeLeft = fst (updateQueues s)"
  define s1 where "s1 = snd (updateQueues s)"
  have tl: "0 < timeLeft" unfolding timeLeft_def by (rule updateQueues_pos)
  have wf1: "wellFormed cfg s1"
    unfolding s1_def by (rule updateQueues_wellFormed [OF "1.prems"(2)])
  have cs1: "currSample s1 = currSample s"
    using updateQueues_frame [of s] by (simp add: s1_def)
  show ?case
  proof (cases "timeLeft < numsamples")
    case True
    from "1.IH"(1) [OF pos refl timeLeft_def s1_def True tl wf1]
    obtain r1 d1 s2 where a: "fillSamples cfg timeLeft s1 = Some (r1, d1, s2)"
      "wellFormed cfg s2" "int (length d1) = timeLeft" "list_all (inRange cfg) d1"
      "currSample s2 = currSample s1 + timeLeft"
      by blast
    from True have rest: "0 < numsamples - timeLeft" by simp
    from "1.IH"(2) [OF pos refl timeLeft_def s1_def True a(1) refl refl rest a(2)]
    obtain r2 d2 s3 where b: "fillSamples cfg (numsamples - timeLeft) s2 = Some (r2, d2, s3)"
      "wellFormed cfg s3" "int (length d2) = numsamples - timeLeft" "list_all (inRange cfg) d2"
      "currSample s3 = currSample s2 + (numsamples - timeLeft)"
      by blast
    have "fillSamples cfg numsamples s = Some (1, d1 @ d2, s3)"
      using pos True a(1) b(1)
      by (simp add: fillSamples.simps [of cfg numsamples s] Let_def timeLeft_def s1_def)
    with a b cs1 show ?thesis by simp
  next
    case False
    from "1.prems"(1) have n: "0 < nat numsamples" by simp
    from mixDown_ok [OF wf1 n]
    obtain r out s' where m: "mixDown cfg (nat numsamples) s1 = Some (r, out, s')"
      "wellFormed cfg s'" "length out = nat numsamples" "list_all (inRange cfg) out"
      "currSample s' = currSample s1 + int (nat numsamples)"
      by blast
    have "fillSamples cfg numsamples s = Some (r, out, s')"
      using pos False m(1)
      by (simp add: fillSamples.simps [of cfg numsamples s] Let_def timeLeft_def s1_def)
    with m cs1 "1.prems"(1) show ?thesis by simp
  qed
qed

text \<open>
  Claim C3.  For every requested count \<open>N > 0\<close> and every well-formed state (a sample
  rate for which every clamped duration is at least one sample, slot cursors inside
  their instruction buffers, \<open>1 \<le> OUTPUT_BITS \<le> 16\<close>), whatever the instruction
  sequences contain, \<open>fillSamples\<close> returns, writes exactly \<open>N\<close> samples, each within
  \<open>[-MAXVAL, MAXVAL]\<close> for \<open>MAXVAL = 2 ^ (OUTPUT_BITS - 1) - 1\<close>, and advances
  \<open>currSample\<close> by exactly \<open>N\<close>.
\<close>

theorem fillSamples_writes:
  "0 < numsamples \<Longrightarrow> wellFormed cfg s \<Longrightarrow>
   \<exists>r out s'. fillSamples cfg numsamples s = Some (r, out, s') \<and>
     int (length out) = numsamples \<and> list_all (inRange cfg) out \<and>
     currSample s' = currSample s + numsamples"
  using fillSamples_ok [of numsamples cfg s] by blast

text \<open>
  Claim C10.  For a requested count \<open>numsamples \<le> 0\<close>, \<open>fillSamples\<close> returns 1,
  writes no sample and leaves the state (waiting list, slots, sample counter)
  unchanged.
\<close>

theorem fillSamples_nonpositive:
  "numsamples \<le> 0 \<Longrightarrow> fillSamples cfg numsamples s = Some (1, [], s)"
  by (simp add: fillSamples.simps)

section \<open>Evaluation of an example\<close>

lemma e_choose: "chooseSlot [emptySlot] = 0"
  by (simp add: chooseSlot_def slotLoop.simps emptySlot_def)

lemma e_bind:
  "bindSound playState (10, \<lparr>state = Waiting, instructions = [beep], startSampleNo = 0\<rparr>) = boundState"
  by (simp add: bindSound_def playState_def e_choose Let_def)
     (simp add: boundState_def boundSlot_def evictOld_def emptySlot_def)

lemma e_uq: "updateQueues playState = (maxTime, boundState)"
proof -
  have "scanWaiting (currSample playState) (waiting playState) maxTime
          = (Some (10, \<lparr>state = Waiting, instructions = [beep], startSampleNo = 0\<rparr>), maxTime)"
    by (simp add: playState_def)
  moreover have "scanWaiting (currSample boundState) (waiting boundState) maxTime = (None, maxTime)"
    by (simp add: boundState_def maxTime_def)
  ultimately show ?thesis
    by (simp add: updateQueues.simps [of playState] updateQueues.simps [of boundState] e_bind)
qed

lemma e_spm: "samplesPerMS 1000 = 256"
  by (simp add: samplesPerMS_def tdiv_def)

lemma e_ts: "toneStepOf exampleConfig 1000 500 = 33554432"
  by (simp add: exampleConfig_def)

lemma e_wave: "getWaveFn exampleConfig 15 = SquareWaveTone"
  by (simp add: getWaveFn_def exampleConfig_def)

lemma e_clamp: "clampInstr beep = beep"
  by (simp add: clampInstr_def beep_def CLAMP_def)

lemma e_load: "loadInstr exampleConfig 1000 True boundSlot (initLocals boundSlot) = Some loaded"
  by (simp add: loadInstr_def boundSlot_def emptySlot_def e_clamp Let_def)
     (simp add: beep_def e_spm cdiv_def tdiv_def e_wave e_ts initLocals_def loaded_def)

lemma e_sq0: "squareWaveTone exampleConfig 15 0 = - 32767"
  by (simp add: squareWaveTone_def exampleConfig_def)

lemma e_sq512: "squareWaveTone exampleConfig 15 512 = 32767"
  by (simp add: squareWaveTone_def exampleConfig_def)

lemma e_pos0: "drop_bit 16 (0 :: 32 word) AND 1023 = 0" by simp
lemma e_pos1: "drop_bit 16 (33554432 :: 32 word) AND 1023 = 512" by simp
lemma e_pos2: "drop_bit 16 (67108864 :: 32 word) AND 1023 = 0" by simp

lemma e_shift: "10 + (16 - OUTPUT_BITS exampleConfig) = 16"
  by (simp add: exampleConfig_def)

lemma e_emit0:
  "emitSample exampleConfig \<lparr>slot = boundSlot, locals = loaded, noise = noiseSeed, terms = []\<rparr>
     = Some (Next afterOne)"
  by (simp add: emitSample_def loaded_def e_pos0 e_sq0 e_shift Let_def afterOne_def)

lemma e_emit1: "emitSample exampleConfig afterOne = Some (Next afterTwo)"
  by (simp add: emitSample_def afterOne_def loaded_def e_pos1 e_sq512 e_shift Let_def afterTwo_def)

lemma e_bump: "boundSlot\<lparr>currInstr := 0\<rparr> = boundSlot"
  by (simp add: boundSlot_def emptySlot_def)

lemma e_step0: "sampleStep exampleConfig 1000 True loopStart = Some (Next afterOne)"
  by (simp add: sampleStep_def loopStart_def initLocals_def Let_def e_bump)
     (simp add: boundSlot_def emptySlot_def e_load [unfolded initLocals_def boundSlot_def emptySlot_def, simplified]
                e_emit0 [unfolded boundSlot_def emptySlot_def, simplified])

lemma e_step1: "sampleStep exampleConfig 1000 False afterOne = Some (Next afterTwo)"
  by (simp add: sampleStep_def e_emit1) (simp add: afterOne_def loaded_def)

lemma e_step2: "sampleStep exampleConfig 1000 False afterTwo = Some (Break (afterTwo\<lparr>slot := boundSlot\<lparr>currInstr := 1\<rparr>\<rparr>))"
  by (simp add: sampleStep_def afterTwo_def loaded_def Let_def boundSlot_def emptySlot_def)

lemma e_loop3:
  "sampleLoop exampleConfig 1000 3 True loopStart = Some (afterTwo\<lparr>slot := boundSlot\<lparr>currInstr := 1\<rparr>\<rparr>)"
  by (simp add: numeral_3_eq_3 e_step0 e_step1 e_step2)


lemma e_clamp0: "clampOut exampleConfig 0 = 0"
  by (simp add: clampOut_def MAXVAL_def exampleConfig_def)

lemma e_clamp511: "clampOut exampleConfig 511 = 511"
  by (simp add: clampOut_def MAXVAL_def exampleConfig_def)

lemma e_clampNeg: "clampOut exampleConfig 65024 = 65025"
  by (simp add: clampOut_def MAXVAL_def exampleConfig_def)

lemma e_play3:
  "playSlot exampleConfig 1000 3 boundSlot
     \<lparr>mwaiting = waiting boundState, mnoise = noiseSeed, dst = [0, 0, 0], res = 1\<rparr>
   = Some (boundSlot\<lparr>sound := None, currInstr := 1\<rparr>,
           \<lparr>mwaiting = waiting doneState, mnoise = noiseSeed, dst = [65024, 511, 0], res = 1\<rparr>)"
proof -
  have s: "sound boundSlot = Some 10" by (simp add: boundSlot_def)
  have c: "boundSlot\<lparr>currInstr := currInstr boundSlot - 1\<rparr> = boundSlot\<lparr>currInstr := - 1\<rparr>"
    by (simp add: boundSlot_def emptySlot_def)
  show ?thesis
    by (simp add: playSlot_def s c loopStart_def [symmetric] e_loop3 Let_def)
       (simp add: afterTwo_def boundSlot_def emptySlot_def boundState_def doneState_def)
qed

lemma e_mix3: "mixDown exampleConfig 3 boundState = Some (1, [65025, 511, 0], doneState)"
proof -
  have r: "replicate 3 (0 :: 16 word) = [0, 0, 0]" by (simp add: numeral_3_eq_3)
  have p: "playingSounds boundState = [boundSlot]" "sampleRate boundState = 1000"
    "noiseX boundState = noiseSeed" "waiting boundState \<noteq> []"
    by (simp_all add: boundState_def)
  show ?thesis
    by (simp add: mixDown_def p r e_play3 e_clamp0 e_clamp511 e_clampNeg)
       (simp add: boundState_def doneState_def)
qed

lemma e_fill3: "fillSamples exampleConfig 3 playState = Some (1, [65025, 511, 0], doneState)"
  by (simp add: fillSamples.simps [of exampleConfig 3 playState] e_uq maxTime_def e_mix3)





lemma e_load_mid:
  "loadInstr exampleConfig 1000 True midSlot (initLocals midSlot)
     = Some (loaded\<lparr>tonePosition := 67108864, samplesLeft := 1\<rparr>)"
  by (simp add: loadInstr_def midSlot_def boundSlot_def emptySlot_def e_clamp Let_def)
     (simp add: beep_def e_spm cdiv_def tdiv_def e_wave initLocals_def loaded_def)

lemma e_emit_mid:
  "emitSample exampleConfig
     \<lparr>slot = midSlot, locals = loaded\<lparr>tonePosition := 67108864, samplesLeft := 1\<rparr>,
      noise = noiseSeed, terms = []\<rparr>
   = Some (Next \<lparr>slot = midSlot, locals = loaded\<lparr>tonePosition := 100663296, samplesLeft := 0\<rparr>,
                 noise = noiseSeed, terms = [- 512]\<rparr>)"
  by (simp add: emitSample_def loaded_def e_pos2 e_sq0 e_shift Let_def)

lemma e_bump_mid: "midSlot\<lparr>currInstr := 0\<rparr> = midSlot"
  by (simp add: midSlot_def boundSlot_def emptySlot_def)

lemma e_step_mid:
  "sampleStep exampleConfig 1000 True resumeStart
     = Some (Next \<lparr>slot = midSlot, locals = loaded\<lparr>tonePosition := 100663296, samplesLeft := 0\<rparr>,
                   noise = noiseSeed, terms = [- 512]\<rparr>)"
proof -
  have a: "samplesLeft (initLocals midSlot) = 0" by (simp add: initLocals_def)
  have c: "\<not> currInstr midSlot \<ge> instrEnd midSlot"
    by (simp add: midSlot_def boundSlot_def emptySlot_def)
  show ?thesis
    using c by (simp add: sampleStep_def resumeStart_def a e_bump_mid e_load_mid e_emit_mid Let_def)
qed

lemma e_loop_mid:
  "sampleLoop exampleConfig 1000 (Suc 0) True resumeStart
     = Some \<lparr>slot = midSlot, locals = loaded\<lparr>tonePosition := 100663296, samplesLeft := 0\<rparr>,
             noise = noiseSeed, terms = [- 512]\<rparr>"
  by (simp add: e_step_mid)




section \<open>The mixer on the example\<close>

lemma playState_wellFormed: "wellFormed exampleConfig playState"
  by (simp add: wellFormed_def playState_def validRate_def e_spm slotOK_def emptySlot_def
                exampleConfig_def)

theorem fillSamples_writes_witness:
  "(0 :: int) < 3 \<and> wellFormed exampleConfig playState \<and>
   fillSamples exampleConfig 3 playState = Some (1, [65025, 511, 0], doneState) \<and>
   int (length [65025 :: 16 word, 511, 0]) = 3 \<and>
   list_all (inRange exampleConfig) [65025, 511, 0] \<and>
   currSample doneState = currSample playState + 3"
  using fillSamples_writes [of 3 exampleConfig playState] playState_wellFormed e_fill3
  by auto

theorem fillSamples_frame_witness:
  "fillSamples exampleConfig 3 playState = Some (1, [65025, 511, 0], doneState) \<and>
   linkStructure (waiting doneState) = linkStructure (waiting playState) \<and>
   sampleRate doneState = sampleRate playState"
  using fillSamples_frame [OF e_fill3] e_fill3 by simp

theorem fillSamples_nonpositive_witness:
  "(0 :: int) \<le> 0 \<and> fillSamples exampleConfig 0 playState = Some (1, [], playState)"
  using fillSamples_nonpositive [of 0 exampleConfig playState] by simp


section \<open>Scheduler: the instruction buffer of a waiting sound\<close>

lemma patchNode_simps [simp]:
  "fst (patchNode a buf p) = fst p"
  "state (snd (patchNode a buf p)) = state (snd p)"
  "startSampleNo (snd (patchNode a buf p)) = startSampleNo (snd p)"
  by (simp_all add: patchNode_def)




lemma replaceBuffer_simps [simp]:
  "currSample (replaceBuffer a buf s) = currSample s"
  "sampleRate (replaceBuffer a buf s) = sampleRate s"
  "playingSounds (replaceBuffer a buf s) = playingSounds s"
  "noiseX (replaceBuffer a buf s) = noiseX s"
  "waiting (replaceBuffer a buf s) = map (patchNode a buf) (waiting s)"
  by (simp_all add: replaceBuffer_def)


lemma aheadList_Nil [simp]: "aheadList a lim []"
  by (simp add: aheadList_def)

lemma aheadList_Cons [simp]:
  "aheadList a lim (p # ws) =
     ((fst p \<noteq> a \<or> state (snd p) \<noteq> Waiting \<or> lim \<le> startSampleNo (snd p)) \<and> aheadList a lim ws)"
  by (simp add: aheadList_def)



lemma aheadList_mono: "lim' \<le> lim \<Longrightarrow> aheadList a lim ws \<Longrightarrow> aheadList a lim' ws"
  by (induction ws) auto




lemma patchMix_simps [simp]:
  "mnoise (patchMix a buf m) = mnoise m"
  "dst (patchMix a buf m) = dst m"
  "res (patchMix a buf m) = res m"
  "mwaiting (patchMix a buf m) = map (patchNode a buf) (mwaiting m)"
  by (simp_all add: patchMix_def)







lemma wellFormed_replaceBuffer [simp]: "wellFormed cfg (replaceBuffer a buf s) = wellFormed cfg s"
  by (simp add: wellFormed_def)




section \<open>Scheduler: a waiting sound until its start\<close>


lemma fst_setState [simp]: "map fst (setState b st ws) = map fst ws"
  by (induction ws) auto































lemma enqueue_simps [simp]:
  "currSample (fst (queuePlayInstructions a delay buf s)) = currSample s"
  "sampleRate (fst (queuePlayInstructions a delay buf s)) = sampleRate s"
  "playingSounds (fst (queuePlayInstructions a delay buf s)) = playingSounds s"
  by (simp_all add: queuePlayInstructions_def Let_def)





section \<open>Mixer: a sound resumed by a second call\<close>













lemma soundWave_clampInstr [simp]: "soundWave (clampInstr i) = soundWave i"
  by (simp add: clampInstr_def)





lemma quiet_cursor [simp]: "quiet cfg (sd\<lparr>currInstr := c\<rparr>) = quiet cfg sd"
  by (simp add: quiet_def)



lemma retarget_simps [simp]:
  "locals (retarget sv n st) = locals st"
  "noise (retarget sv n st) = noise st"
  "terms (retarget sv n st) = drop n (terms st)"
  "slot (retarget sv n st) = sv\<lparr>currInstr := currInstr (slot st)\<rparr>"
  by (simp_all add: retarget_def)




lemma saveSlot_simps [simp]:
  "currInstr (saveSlot st) = currInstr (slot st)"
  "instrData (saveSlot st) = instrData (slot st)"
  "instrEnd (saveSlot st) = instrEnd (slot st)"
  "sound (saveSlot st) = sound (slot st)"
  "PlayingSound.startSampleNo (saveSlot st) = PlayingSound.startSampleNo (slot st)"
  "PlayingSound.tonePosition (saveSlot st) = tonePosition (locals st)"
  "prevVolume (saveSlot st) = volume (locals st)"
  "prevToneDelta (saveSlot st) = toneDelta (locals st)"
  "prevToneStep (saveSlot st) = toneStep (locals st)"
  by (simp_all add: saveSlot_def)


lemma currentInstr_saveSlot [simp]: "currentInstr (saveSlot st) = currentInstr (slot st)"
  by (simp add: currentInstr_def)



lemma markDone_empty [simp]: "markDone {} ws = ws"
  by (simp add: markDone_def)




lemma addTerms_Nil [simp]: "addTerms ds [] = ds"
  by (cases ds) simp_all


















section \<open>Resumption on the example\<close>








end
